theory Spec2Isabelle
  imports Complex_Main "HOL-Library.Multiset" "HOL-Library.Log_Nat"
begin

section \<open>JavaScript values\<close>

text \<open>
  The service is one file, \<^verbatim>\<open>app.js\<close>: an Express application whose handlers call three
  collaborators (the Sequelize model \<^verbatim>\<open>Visit\<close>, \<^verbatim>\<open>axios.get\<close> and the secret manager).
  The handlers are embedded as total functions; what a collaborator answers is an
  argument of the handler, and a JavaScript \<^verbatim>\<open>throw\<close> is the left injection of a sum.
\<close>

datatype js_error = Error string | TypeError string

fun message :: "js_error \<Rightarrow> string" where
  "message (Error m) = m"
| "message (TypeError m) = m"

text \<open>
  A value as \<^verbatim>\<open>JSON.parse\<close> (or axios, for a body that is no JSON) delivers it, and
  \<^verbatim>\<open>undefined\<close> for a property that is not there. An object is the list of its own
  properties. Strings of headers and of the provider are lists of 8-bit characters.
\<close>

datatype jsval =
    Undefined
  | JNull
  | JBool bool
  | JNum real
  | JStr string
  | JArr "jsval list"
  | JObj "(string \<times> jsval) list"

text \<open>What \<^verbatim>\<open>console.log\<close> and \<^verbatim>\<open>console.error\<close> were called with.\<close>

datatype log_entry =
    ConsoleLog string
  | ConsoleLogMsg string string
  | ConsoleError string string
  | ConsoleErrorObj string js_error

section \<open>Numbers\<close>

text \<open>
  A JavaScript Number is an IEEE 754 double. The pagination handler computes on what
  \<^verbatim>\<open>parseInt\<close> reads and on the count of the store, which are integers, so a finite
  Number is kept here as the integer it is; \<^verbatim>\<open>NaN\<close> and the two infinities are values of
  their own. Negative zero is not told from zero: the handler neither divides by a zero
  nor prints its sign.

  \<open>round_to p n\<close> is \<open>n\<close> rounded to \<open>p\<close> significant bits, a tie going to the even
  neighbour; \<open>floorlog 2 n\<close> is the number of bits of \<open>n\<close>. A double has 53 significant
  bits, and a magnitude that rounds to \<open>2 ^ 1024\<close> or more is an infinity.
\<close>

datatype number = NaN | Finite int | Infinity | NegInfinity

definition round_to :: "nat \<Rightarrow> nat \<Rightarrow> nat" where
  "round_to p n =
     (let e = floorlog 2 n - p;
          q = n div 2 ^ e;
          r = n mod 2 ^ e
      in (if 2 ^ e < 2 * r \<or> (2 * r = 2 ^ e \<and> odd q) then q + 1 else q) * 2 ^ e)"

definition to_number :: "int \<Rightarrow> number" where
  "to_number n =
     (let m = round_to 53 (nat \<bar>n\<bar>)
      in if m < 2 ^ 1024 then Finite (sgn n * int m)
         else if 0 < n then Infinity else NegInfinity)"

text \<open>\<^verbatim>\<open>isNaN(x)\<close> and \<^verbatim>\<open>x < y\<close> on Numbers; a comparison with \<^verbatim>\<open>NaN\<close> is false.\<close>

definition isNaN :: "number \<Rightarrow> bool" where
  "isNaN x \<longleftrightarrow> x = NaN"

fun number_less :: "number \<Rightarrow> number \<Rightarrow> bool" where
  "number_less (Finite a) (Finite b) = (a < b)"
| "number_less (Finite a) Infinity = True"
| "number_less NegInfinity (Finite b) = True"
| "number_less NegInfinity Infinity = True"
| "number_less x y = False"

text \<open>
  \<^verbatim>\<open>x - y\<close> and \<^verbatim>\<open>x * y\<close>: the exact result, rounded; an infinity absorbs a finite
  operand, and \<^verbatim>\<open>Infinity - Infinity\<close> and \<^verbatim>\<open>Infinity * 0\<close> are \<^verbatim>\<open>NaN\<close>.
\<close>

fun number_sub :: "number \<Rightarrow> number \<Rightarrow> number" where
  "number_sub (Finite a) (Finite b) = to_number (a - b)"
| "number_sub (Finite a) Infinity = NegInfinity"
| "number_sub (Finite a) NegInfinity = Infinity"
| "number_sub Infinity (Finite b) = Infinity"
| "number_sub Infinity NegInfinity = Infinity"
| "number_sub NegInfinity (Finite b) = NegInfinity"
| "number_sub NegInfinity Infinity = NegInfinity"
| "number_sub x y = NaN"

fun sign_of :: "number \<Rightarrow> int" where
  "sign_of (Finite a) = sgn a"
| "sign_of Infinity = 1"
| "sign_of NegInfinity = - 1"
| "sign_of NaN = 0"

fun number_mul :: "number \<Rightarrow> number \<Rightarrow> number" where
  "number_mul (Finite a) (Finite b) = to_number (a * b)"
| "number_mul NaN y = NaN"
| "number_mul x NaN = NaN"
| "number_mul x y =
     (if sign_of x * sign_of y = 0 then NaN
      else if 0 < sign_of x * sign_of y then Infinity else NegInfinity)"

text \<open>
  \<open>quotient_to p a b\<close> is the quotient of two positive integers rounded to \<open>p\<close>
  significant bits, a tie going to the even neighbour: the numerator is scaled by
  \<open>2 ^ s\<close> so that the integer quotient \<open>q\<close> by \<open>b * 2 ^ e\<close> has \<open>p\<close> bits, and the
  remainder decides the rounding. The quotient of two integers that are doubles lies
  between \<open>2 ^ - 1024\<close> and \<open>2 ^ 1024\<close>; below \<open>2 ^ - 1022\<close> a double has fewer bits, but
  there the quotient and its rounding both lie strictly between 0 and 1 and have the
  same ceiling.

  \<^verbatim>\<open>Math.ceil(x / y)\<close>, in one function since the quotient is no integer.
\<close>

definition quotient_to :: "nat \<Rightarrow> nat \<Rightarrow> nat \<Rightarrow> real" where
  "quotient_to p a b =
     (let s = p + floorlog 2 b;
          N = a * 2 ^ s;
          e = floorlog 2 (N div b) - p;
          d = b * 2 ^ e;
          q = N div d;
          r = N mod d
      in real ((if d < 2 * r \<or> (2 * r = d \<and> odd q) then q + 1 else q) * 2 ^ e) / 2 ^ s)"

fun Math_ceil_div :: "number \<Rightarrow> number \<Rightarrow> number" where
  "Math_ceil_div (Finite a) (Finite b) =
     (if b = 0 then (if a = 0 then NaN else if 0 < a then Infinity else NegInfinity)
      else Finite \<lceil>of_int (sgn a * sgn b) * quotient_to 53 (nat \<bar>a\<bar>) (nat \<bar>b\<bar>)\<rceil>)"
| "Math_ceil_div (Finite a) Infinity = Finite 0"
| "Math_ceil_div (Finite a) NegInfinity = Finite 0"
| "Math_ceil_div Infinity (Finite b) = (if 0 \<le> b then Infinity else NegInfinity)"
| "Math_ceil_div NegInfinity (Finite b) = (if 0 \<le> b then NegInfinity else Infinity)"
| "Math_ceil_div x y = NaN"

section \<open>The Visit model and the store\<close>

text \<open>
  A row of the table \<^verbatim>\<open>Visits\<close>, as \<^verbatim>\<open>sequelize.define\<close> in \<^verbatim>\<open>app.js\<close> declares it: the
  columns \<^verbatim>\<open>ip\<close>, \<^verbatim>\<open>city\<close>, \<^verbatim>\<open>region\<close>, \<^verbatim>\<open>country\<close>, \<^verbatim>\<open>latitude\<close> and \<^verbatim>\<open>longitude\<close> are
  \<^verbatim>\<open>DataTypes.STRING\<close> (\<^verbatim>\<open>character varying(255)\<close> in PostgreSQL), \<^verbatim>\<open>user_agent\<close> is
  \<^verbatim>\<open>DataTypes.TEXT\<close>, and \<^verbatim>\<open>visited_at\<close> is a date, in milliseconds here. A column the
  handler may leave without a value holds \<open>None\<close>, the SQL \<^verbatim>\<open>NULL\<close>. The columns \<^verbatim>\<open>id\<close>,
  \<^verbatim>\<open>createdAt\<close> and \<^verbatim>\<open>updatedAt\<close> that Sequelize adds are left out.
\<close>

record visit =
  ip :: string
  user_agent :: string
  city :: "string option"
  region :: "string option"
  country :: "string option"
  latitude :: string
  longitude :: string
  visited_at :: int

text \<open>
  Sequelize validates the attributes before it sends the \<^verbatim>\<open>INSERT\<close>: a value of a
  \<^verbatim>\<open>STRING\<close> or \<^verbatim>\<open>TEXT\<close> attribute that is an array or an object is a
  \<^verbatim>\<open>string violation\<close>, and the error's message lists the violations, joined by a
  comma and a line feed. The handler passes strings for \<^verbatim>\<open>ip\<close>, \<^verbatim>\<open>user_agent\<close>,
  \<^verbatim>\<open>latitude\<close> and \<^verbatim>\<open>longitude\<close>, and values of the provider for the other three.
\<close>

fun is_array_or_object :: "jsval \<Rightarrow> bool" where
  "is_array_or_object (JArr vs) = True"
| "is_array_or_object (JObj kvs) = True"
| "is_array_or_object v = False"

definition string_violations :: "(string \<times> jsval) list \<Rightarrow> string list" where
  "string_violations attrs =
     map (\<lambda>a. ''string violation: '' @ fst a @ '' cannot be an array or an object'')
       (filter (\<lambda>a. is_array_or_object (snd a)) attrs)"

fun join_lines :: "string list \<Rightarrow> string" where
  "join_lines [] = []"
| "join_lines [s] = s"
| "join_lines (s # t # ss) = s @ [CHR '','', CHR 0x0A] @ join_lines (t # ss)"

text \<open>
  A value that passes is sent as a bind parameter, in its text: a string as it is, a
  number as \<^verbatim>\<open>Number.prototype.toString\<close> prints it (the parameter \<open>nts\<close>), a boolean as
  \<^verbatim>\<open>true\<close> or \<^verbatim>\<open>false\<close>; \<^verbatim>\<open>null\<close> and \<^verbatim>\<open>undefined\<close> are \<^verbatim>\<open>NULL\<close>. (An array or an object
  does not get here.)
\<close>

fun bind_text :: "(real \<Rightarrow> string) \<Rightarrow> jsval \<Rightarrow> string option" where
  "bind_text nts (JStr s) = Some s"
| "bind_text nts (JNum x) = Some (nts x)"
| "bind_text nts (JBool b) = Some (if b then ''true'' else ''false'')"
| "bind_text nts v = None"

text \<open>
  What PostgreSQL makes of a text: no text may hold the character of code 0, and a
  \<^verbatim>\<open>character varying(255)\<close> takes at most 255 characters, where a longer text whose
  excess is blank is cut and any other is refused.
\<close>

definition text_column :: "string \<Rightarrow> js_error + string" where
  "text_column s =
     (if CHR 0x00 \<in> set s
      then Inl (Error (''invalid byte sequence for encoding '' @ [CHR 0x22] @ ''UTF8''
                        @ [CHR 0x22] @ '': 0x00''))
      else Inr s)"

definition character_varying_255 :: "string \<Rightarrow> js_error + string" where
  "character_varying_255 s =
     (case text_column s of
        Inl e \<Rightarrow> Inl e
      | Inr s \<Rightarrow>
          (if length s \<le> 255 then Inr s
           else if list_all (\<lambda>c. c = CHR '' '') (drop 255 s) then Inr (take 255 s)
           else Inl (Error ''value too long for type character varying(255)'')))"

definition nullable :: "(string \<Rightarrow> js_error + string) \<Rightarrow> string option
    \<Rightarrow> js_error + string option" where
  "nullable column v =
     (case v of
        None \<Rightarrow> Inr None
      | Some s \<Rightarrow> (case column s of Inl e \<Rightarrow> Inl e | Inr t \<Rightarrow> Inr (Some t)))"

text \<open>The \<^verbatim>\<open>INSERT\<close>: the row as the table keeps it, or the error of the first column refused.\<close>

definition insert_row ::
  "int \<Rightarrow> string \<Rightarrow> string \<Rightarrow> string option \<Rightarrow> string option \<Rightarrow> string option \<Rightarrow> string
     \<Rightarrow> string \<Rightarrow> js_error + visit" where
  "insert_row now ip' userAgent c r n la lo =
     (case character_varying_255 ip' of Inl e \<Rightarrow> Inl e | Inr ip1 \<Rightarrow>
     (case text_column userAgent of Inl e \<Rightarrow> Inl e | Inr ua1 \<Rightarrow>
     (case nullable character_varying_255 c of Inl e \<Rightarrow> Inl e | Inr c1 \<Rightarrow>
     (case nullable character_varying_255 r of Inl e \<Rightarrow> Inl e | Inr r1 \<Rightarrow>
     (case nullable character_varying_255 n of Inl e \<Rightarrow> Inl e | Inr n1 \<Rightarrow>
     (case character_varying_255 la of Inl e \<Rightarrow> Inl e | Inr la1 \<Rightarrow>
     (case character_varying_255 lo of Inl e \<Rightarrow> Inl e | Inr lo1 \<Rightarrow>
        Inr \<lparr>ip = ip1, user_agent = ua1, city = c1, region = r1, country = n1,
             latitude = la1, longitude = lo1, visited_at = now\<rparr>)))))))"

text \<open>
  \<^verbatim>\<open>Visit.create\<close>: the validation, then the call of the store, which fails with the
  fault the environment injects (the connection, the server) or runs the \<^verbatim>\<open>INSERT\<close>.
  \<^verbatim>\<open>visited_at\<close> defaults to \<^verbatim>\<open>Sequelize.NOW\<close>, the clock reading of the call.
\<close>

definition Visit_create ::
  "(real \<Rightarrow> string) \<Rightarrow> js_error option \<Rightarrow> int \<Rightarrow> visit list \<Rightarrow> string \<Rightarrow> string
     \<Rightarrow> jsval \<Rightarrow> jsval \<Rightarrow> jsval \<Rightarrow> string \<Rightarrow> string \<Rightarrow> js_error + visit list" where
  "Visit_create nts fault now rows ip' userAgent c r n la lo =
     (let violations = string_violations [(''city'', c), (''region'', r), (''country'', n)]
      in if violations \<noteq> [] then Inl (Error (join_lines violations))
         else case fault of
                Some e \<Rightarrow> Inl e
              | None \<Rightarrow>
                  (case insert_row now ip' userAgent (bind_text nts c) (bind_text nts r)
                          (bind_text nts n) la lo of
                     Inl e \<Rightarrow> Inl e
                   | Inr v \<Rightarrow> Inr (rows @ [v])))"

text \<open>
  \<^verbatim>\<open>order: [['visited_at', 'DESC']]\<close>: insertion sort on the negated key. Rows of equal
  \<^verbatim>\<open>visited_at\<close> stay in the order of the table, where PostgreSQL leaves their order open.
\<close>

definition order_desc :: "visit list \<Rightarrow> visit list" where
  "order_desc rows = sort_key (\<lambda>v. - visited_at v) rows"

text \<open>
  \<^verbatim>\<open>Visit.findAndCountAll({offset, limit, order})\<close>. The two Numbers are printed into the
  query as \<^verbatim>\<open>LIMIT\<close> and \<^verbatim>\<open>OFFSET\<close>, which PostgreSQL reads as \<^verbatim>\<open>bigint\<close>: a negative one,
  one of \<open>2 ^ 63\<close> or more, an infinity or \<^verbatim>\<open>NaN\<close> (printed as a name) is an error of the
  query, whatever the table holds. (A double below \<open>2 ^ 63\<close> is below \<open>10 ^ 21\<close> and is
  printed with all its digits.) The count comes back as a decimal text that Sequelize
  reads with \<^verbatim>\<open>parseInt\<close>.
\<close>

definition bigint_clause :: "string \<Rightarrow> number \<Rightarrow> js_error + nat" where
  "bigint_clause name x =
     (case x of
        Finite n \<Rightarrow>
          (if n < 0 then Inl (Error (name @ '' must not be negative''))
           else if n < 2 ^ 63 then Inr (nat n)
           else Inl (Error ''bigint out of range''))
      | NaN \<Rightarrow> Inl (Error (''column '' @ [CHR 0x22] @ ''nan'' @ [CHR 0x22] @ '' does not exist''))
      | _ \<Rightarrow> Inl (Error (''column '' @ [CHR 0x22] @ ''infinity'' @ [CHR 0x22]
                          @ '' does not exist'')))"

definition Visit_findAndCountAll ::
  "js_error option \<Rightarrow> visit list \<Rightarrow> number \<Rightarrow> number \<Rightarrow> js_error + (number \<times> visit list)" where
  "Visit_findAndCountAll fault rows offset limit =
     (case fault of
        Some e \<Rightarrow> Inl e
      | None \<Rightarrow>
     (case bigint_clause ''OFFSET'' offset of
        Inl e \<Rightarrow> Inl e
      | Inr skipped \<Rightarrow>
     (case bigint_clause ''LIMIT'' limit of
        Inl e \<Rightarrow> Inl e
      | Inr kept \<Rightarrow>
          Inr (to_number (int (length rows)), take kept (drop skipped (order_desc rows))))))"

definition sequelize_authenticate :: "js_error option \<Rightarrow> js_error + unit" where
  "sequelize_authenticate fault = (case fault of Some e \<Rightarrow> Inl e | None \<Rightarrow> Inr ())"

section \<open>Responses\<close>

record location =
  loc_city :: jsval
  loc_region :: jsval
  loc_country :: jsval
  loc_latitude :: jsval
  loc_longitude :: jsval

datatype body =
    ErrorBody string
  | LogsBody number number number "visit list"
  | ClientInfoBody string string location
  | HealthBody string string string

record response =
  status :: nat
  body :: body

section \<open>parseInt\<close>

text \<open>
  \<^verbatim>\<open>parseInt(string)\<close> with no radix, after ECMAScript: leading white space is dropped, a
  sign is read, then \<^verbatim>\<open>0x\<close> or \<^verbatim>\<open>0X\<close> selects radix 16, and the longest prefix of digits
  is the value, as a Number (the integer rounded to a double, as V8 reads it); with no
  digit the result is \<^verbatim>\<open>NaN\<close>. Strings are lists of UTF-16 code units.
\<close>

type_synonym js_string = "nat list"

definition utf16 :: "string \<Rightarrow> js_string" where
  "utf16 s = map of_char s"

definition is_white_space :: "nat \<Rightarrow> bool" where
  "is_white_space c \<longleftrightarrow>
     c = 9 \<or> c = 10 \<or> c = 11 \<or> c = 12 \<or> c = 13 \<or> c = 32 \<or> c = 160 \<or> c = 5760 \<or>
     (8192 \<le> c \<and> c \<le> 8202) \<or> c = 8232 \<or> c = 8233 \<or> c = 8239 \<or> c = 8287 \<or>
     c = 12288 \<or> c = 65279"

definition digit_value :: "nat \<Rightarrow> nat \<Rightarrow> nat option" where
  "digit_value R c =
     (let v = (if 48 \<le> c \<and> c \<le> 57 then Some (c - 48)
               else if 97 \<le> c \<and> c \<le> 122 then Some (c - 87)
               else if 65 \<le> c \<and> c \<le> 90 then Some (c - 55)
               else None)
      in case v of Some d \<Rightarrow> (if d < R then Some d else None) | None \<Rightarrow> None)"

definition is_digit :: "nat \<Rightarrow> nat \<Rightarrow> bool" where
  "is_digit R c \<longleftrightarrow> digit_value R c \<noteq> None"

definition radix_value :: "nat \<Rightarrow> js_string \<Rightarrow> nat" where
  "radix_value R Z = foldl (\<lambda>acc c. acc * R + the (digit_value R c)) 0 Z"

definition parseInt :: "js_string \<Rightarrow> number" where
  "parseInt inputString =
     (let S = dropWhile is_white_space inputString;
          sign = (case S of c # _ \<Rightarrow> if c = 45 then - 1 else 1 | [] \<Rightarrow> (1::int));
          S1 = (case S of c # r \<Rightarrow> if c = 43 \<or> c = 45 then r else S | [] \<Rightarrow> S);
          hex = (case S1 of a # b # _ \<Rightarrow> a = 48 \<and> (b = 120 \<or> b = 88) | _ \<Rightarrow> False);
          R = (if hex then 16 else 10);
          S2 = (if hex then drop 2 S1 else S1);
          Z = takeWhile (is_digit R) S2
      in if Z = [] then NaN else to_number (sign * int (radix_value R Z)))"

section \<open>GET /api/logs\<close>

text \<open>
  A value of \<^verbatim>\<open>req.query\<close>: a string, an array or an object (the query-string parser
  builds the last two from \<^verbatim>\<open>page[]=1\<close> and \<^verbatim>\<open>page[a]=1\<close>). \<^verbatim>\<open>parseInt\<close> converts its
  argument with ToString: an array joins the texts of its elements with a comma, an
  object is \<^verbatim>\<open>[object Object]\<close>. Express parses the query with prototype names allowed,
  so \<^verbatim>\<open>page[toString]=1\<close> is an object whose own property \<^verbatim>\<open>toString\<close> is a string: it
  hides the method, and the conversion throws a \<^verbatim>\<open>TypeError\<close>.
\<close>

datatype qvalue =
    QString js_string
  | QArray "qvalue list"
  | QObject "(js_string \<times> qvalue) list"

fun ToString :: "qvalue \<Rightarrow> js_error + js_string"
  and join_elements :: "qvalue list \<Rightarrow> js_error + js_string" where
  "ToString (QString s) = Inr s"
| "ToString (QArray vs) = join_elements vs"
| "ToString (QObject kvs) =
     (if map_of kvs (utf16 ''toString'') \<noteq> None
      then Inl (TypeError ''Cannot convert object to primitive value'')
      else Inr (utf16 ''[object Object]''))"
| "join_elements [] = Inr []"
| "join_elements (v # vs) =
     (case ToString v of
        Inl e \<Rightarrow> Inl e
      | Inr s \<Rightarrow>
          (if vs = [] then Inr s
           else case join_elements vs of Inl e \<Rightarrow> Inl e | Inr t \<Rightarrow> Inr (s @ [44] @ t)))"

text \<open>
  \<^verbatim>\<open>const { page = 1, limit = 10 } = req.query\<close>: the default stands in for a parameter
  that is absent, and \<^verbatim>\<open>parseInt\<close> reads the numbers 1 and 10 as \<^verbatim>\<open>"1"\<close> and \<^verbatim>\<open>"10"\<close>.
\<close>

definition page_arg :: "qvalue option \<Rightarrow> js_error + js_string" where
  "page_arg page = (case page of None \<Rightarrow> Inr (utf16 ''1'') | Some v \<Rightarrow> ToString v)"

definition limit_arg :: "qvalue option \<Rightarrow> js_error + js_string" where
  "limit_arg limit = (case limit of None \<Rightarrow> Inr (utf16 ''10'') | Some v \<Rightarrow> ToString v)"

text \<open>
  The handler. The two calls of \<^verbatim>\<open>parseInt\<close> stand before the guards and outside the
  \<^verbatim>\<open>try\<close>: when one throws, the handler's promise rejects and no response is sent, the
  left injection here. Otherwise the result is the response and what was logged.
\<close>

definition logs_handler ::
  "qvalue option \<Rightarrow> qvalue option \<Rightarrow> js_error option \<Rightarrow> visit list
     \<Rightarrow> js_error + response \<times> log_entry list" where
  "logs_handler page limit fault rows =
     (case page_arg page of Inl e \<Rightarrow> Inl e | Inr page_text \<Rightarrow>
     (case limit_arg limit of Inl e \<Rightarrow> Inl e | Inr limit_text \<Rightarrow>
     (let pageNum = parseInt page_text;
          limitNum = parseInt limit_text
      in if isNaN pageNum \<or> number_less pageNum (Finite 1)
         then Inr (\<lparr>status = 400,
                    body = ErrorBody ''Invalid page number. Must be a positive integer.''\<rparr>, [])
         else if isNaN limitNum \<or> number_less limitNum (Finite 1)
                   \<or> number_less (Finite 100) limitNum
         then Inr (\<lparr>status = 400,
                    body = ErrorBody ''Invalid limit. Must be between 1 and 100.''\<rparr>, [])
         else
           (let offset = number_mul (number_sub pageNum (Finite 1)) limitNum
            in case Visit_findAndCountAll fault rows offset limitNum of
                 Inr (cnt, found) \<Rightarrow>
                   Inr (\<lparr>status = 200,
                         body = LogsBody cnt pageNum (Math_ceil_div cnt limitNum) found\<rparr>, [])
               | Inl error \<Rightarrow>
                   Inr (\<lparr>status = 500, body = ErrorBody ''Internal Server Error''\<rparr>,
                        [ConsoleError ''Error fetching logs:'' (message error)])))))"

section \<open>GET /api/client-info\<close>

text \<open>
  What the handler reads of the request: the header \<^verbatim>\<open>x-forwarded-for\<close>, the address of
  the socket and the header \<^verbatim>\<open>user-agent\<close>, each of which may be \<^verbatim>\<open>undefined\<close>. Node decodes
  header bytes as Latin-1, one \<open>char\<close> each.
\<close>

record request =
  hdr_x_forwarded_for :: "string option"
  remoteAddress :: "string option"
  hdr_user_agent :: "string option"

text \<open>\<^verbatim>\<open>a || b\<close> on a string that may be \<^verbatim>\<open>undefined\<close>: the empty string is falsy too.\<close>

definition or_string :: "string option \<Rightarrow> string \<Rightarrow> string" where
  "or_string a b = (case a of Some s \<Rightarrow> if s \<noteq> [] then s else b | None \<Rightarrow> b)"

text \<open>Truthiness, and \<^verbatim>\<open>a || b\<close> on values.\<close>

fun truthy :: "jsval \<Rightarrow> bool" where
  "truthy Undefined = False"
| "truthy JNull = False"
| "truthy (JBool b) = b"
| "truthy (JNum x) = (x \<noteq> 0)"
| "truthy (JStr s) = (s \<noteq> [])"
| "truthy (JArr vs) = True"
| "truthy (JObj kvs) = True"

definition js_or :: "jsval \<Rightarrow> jsval \<Rightarrow> jsval" where
  "js_or a b = (if truthy a then a else b)"

text \<open>
  Reading a property \<^verbatim>\<open>data.k\<close>, for a name \<open>k\<close> that no prototype defines (the five
  names the handler reads are such): \<^verbatim>\<open>null\<close> and \<^verbatim>\<open>undefined\<close> throw, an object
  answers its own property, and every other value answers \<^verbatim>\<open>undefined\<close>.
\<close>

fun get_property :: "jsval \<Rightarrow> string \<Rightarrow> js_error + jsval" where
  "get_property Undefined k = Inl (TypeError (''Cannot read properties of undefined (reading '' @ k @ '')''))"
| "get_property JNull k = Inl (TypeError (''Cannot read properties of null (reading '' @ k @ '')''))"
| "get_property (JObj kvs) k = Inr (case map_of kvs k of Some v \<Rightarrow> v | None \<Rightarrow> Undefined)"
| "get_property v k = Inr Undefined"

text \<open>
  The method call \<^verbatim>\<open>v.toString()\<close>. The text of a number is what
  \<^verbatim>\<open>Number.prototype.toString\<close> prints, a parameter here. An array joins the texts of its
  elements (\<^verbatim>\<open>null\<close> and \<^verbatim>\<open>undefined\<close> print as nothing); a parsed object whose own
  property \<^verbatim>\<open>toString\<close> hides the method cannot be printed.
\<close>

fun toString :: "(real \<Rightarrow> string) \<Rightarrow> jsval \<Rightarrow> js_error + string"
  and join :: "(real \<Rightarrow> string) \<Rightarrow> jsval list \<Rightarrow> js_error + string" where
  "toString nts Undefined = Inl (TypeError ''Cannot read properties of undefined (reading toString)'')"
| "toString nts JNull = Inl (TypeError ''Cannot read properties of null (reading toString)'')"
| "toString nts (JBool b) = Inr (if b then ''true'' else ''false'')"
| "toString nts (JNum x) = Inr (nts x)"
| "toString nts (JStr s) = Inr s"
| "toString nts (JArr vs) = join nts vs"
| "toString nts (JObj kvs) =
     (if map_of kvs ''toString'' \<noteq> None then Inl (TypeError ''toString is not a function'')
      else Inr ''[object Object]'')"
| "join nts [] = Inr []"
| "join nts (v # vs) =
     (case (if v = Undefined \<or> v = JNull then Inr [] else toString nts v) of
        Inl e \<Rightarrow> Inl e
      | Inr s \<Rightarrow>
          (if vs = [] then Inr s
           else case join nts vs of Inl e \<Rightarrow> Inl e | Inr t \<Rightarrow> Inr (s @ '','' @ t)))"

definition default_location :: location where
  "default_location =
     \<lparr>loc_city = JStr ''N/A'', loc_region = JStr ''N/A'', loc_country = JStr ''N/A'',
      loc_latitude = JStr ''N/A'', loc_longitude = JStr ''N/A''\<rparr>"

definition geolocation_url :: "string \<Rightarrow> string" where
  "geolocation_url ip' = ''https://ipapi.co/'' @ ip' @ ''/json/''"

text \<open>
  The body of the first \<^verbatim>\<open>try\<close>: one \<^verbatim>\<open>axios.get\<close>, which rejects on a timeout, a network
  error or a status outside 2xx, then five property reads of \<^verbatim>\<open>response.data\<close>.
\<close>

definition geolocate :: "(string \<Rightarrow> js_error + jsval) \<Rightarrow> string \<Rightarrow> js_error + location" where
  "geolocate axios_get ip' =
     (case axios_get (geolocation_url ip') of
        Inl e \<Rightarrow> Inl e
      | Inr data \<Rightarrow>
     (case get_property data ''city'' of Inl e \<Rightarrow> Inl e | Inr c \<Rightarrow>
     (case get_property data ''region'' of Inl e \<Rightarrow> Inl e | Inr r \<Rightarrow>
     (case get_property data ''country_name'' of Inl e \<Rightarrow> Inl e | Inr n \<Rightarrow>
     (case get_property data ''latitude'' of Inl e \<Rightarrow> Inl e | Inr la \<Rightarrow>
     (case get_property data ''longitude'' of Inl e \<Rightarrow> Inl e | Inr lo \<Rightarrow>
        Inr \<lparr>loc_city = js_or c (JStr ''N/A''), loc_region = js_or r (JStr ''N/A''),
             loc_country = js_or n (JStr ''N/A''), loc_latitude = js_or la (JStr ''N/A''),
             loc_longitude = js_or lo (JStr ''N/A'')\<rparr>))))))"

text \<open>
  The body of the second \<^verbatim>\<open>try\<close>: the object literal is built, with its two
  \<^verbatim>\<open>.toString()\<close> calls, then \<^verbatim>\<open>Visit.create\<close> runs.
\<close>

definition store_visit ::
  "(real \<Rightarrow> string) \<Rightarrow> js_error option \<Rightarrow> int \<Rightarrow> visit list \<Rightarrow> string \<Rightarrow> string \<Rightarrow> location
     \<Rightarrow> js_error + visit list" where
  "store_visit nts fault now rows ip' userAgent locationData =
     (case toString nts (loc_latitude locationData) of Inl e \<Rightarrow> Inl e | Inr la \<Rightarrow>
     (case toString nts (loc_longitude locationData) of Inl e \<Rightarrow> Inl e | Inr lo \<Rightarrow>
        Visit_create nts fault now rows ip' userAgent (loc_city locationData)
          (loc_region locationData) (loc_country locationData) la lo))"

text \<open>
  What a run of the handler leaves: the response, the console, the outbound requests
  in order, and the table.
\<close>

record outcome =
  res :: response
  console :: "log_entry list"
  requests :: "string list"
  table :: "visit list"

definition client_ip :: "request \<Rightarrow> string" where
  "client_ip req =
     (let ip' = or_string (hdr_x_forwarded_for req) (or_string (remoteAddress req) ''Unknown'')
      in if ip' = ''::1'' \<or> ip' = ''127.0.0.1'' then ''localhost'' else ip')"

text \<open>
  The lookup, from the guard to the end of the first \<^verbatim>\<open>catch\<close>: the location, what it
  logs, and the requests it sent.
\<close>

definition geolocation_client ::
  "(string \<Rightarrow> js_error + jsval) \<Rightarrow> string \<Rightarrow> location \<times> log_entry list \<times> string list" where
  "geolocation_client axios_get ip' =
     (if ip' \<noteq> ''localhost'' \<and> ip' \<noteq> ''Unknown'' then
        (case geolocate axios_get ip' of
           Inr l \<Rightarrow> (l, [], [geolocation_url ip'])
         | Inl error \<Rightarrow>
             (default_location,
              [ConsoleLogMsg ''Geolocation API request failed:'' (message error)],
              [geolocation_url ip']))
      else (default_location, [], []))"

definition client_info ::
  "(real \<Rightarrow> string) \<Rightarrow> (string \<Rightarrow> js_error + jsval) \<Rightarrow> js_error option \<Rightarrow> int \<Rightarrow> visit list
     \<Rightarrow> request \<Rightarrow> outcome" where
  "client_info nts axios_get fault now rows req =
     (let ip' = client_ip req;
          userAgent = or_string (hdr_user_agent req) ''Unknown'';
          (locationData, log1, sent) = geolocation_client axios_get ip';
          (rows', log2) =
            (case store_visit nts fault now rows ip' userAgent locationData of
               Inr rows' \<Rightarrow> (rows', [])
             | Inl error \<Rightarrow> (rows, [ConsoleError ''Database error:'' (message error)]))
      in \<lparr>res = \<lparr>status = 200, body = ClientInfoBody ip' userAgent locationData\<rparr>,
          console = log1 @ log2, requests = sent, table = rows'\<rparr>)"

section \<open>GET /_health\<close>

text \<open>
  \<^verbatim>\<open>Date.prototype.toISOString\<close> of a time value, the milliseconds since the epoch:
  \<^verbatim>\<open>YYYY-MM-DDTHH:mm:ss.sssZ\<close>, the year with a sign and six digits outside 0 to 9999.
  The date is computed from the day number in the 400-year cycle that starts on
  1 March of year 0.
\<close>

definition digit_char :: "nat \<Rightarrow> char" where
  "digit_char n = ''0123456789'' ! n"

function decimal :: "nat \<Rightarrow> string" where
  "decimal n = (if n < 10 then [digit_char n] else decimal (n div 10) @ [digit_char (n mod 10)])"
  by pat_completeness auto
termination
  by (relation "measure (\<lambda>n. n)") auto

declare decimal.simps [simp del]

definition padStart :: "nat \<Rightarrow> string \<Rightarrow> string" where
  "padStart w s = replicate (w - length s) CHR ''0'' @ s"

definition civil_from_days :: "int \<Rightarrow> int \<times> int \<times> int" where
  "civil_from_days day =
     (let z = day + 719468;
          era = z div 146097;
          doe = z mod 146097;
          c = min 3 (doe div 36524);
          r1 = doe - c * 36524;
          q = r1 div 1461;
          r2 = r1 mod 1461;
          yy = min 3 (r2 div 365);
          doy = r2 - yy * 365;
          mp = (5 * doy + 2) div 153;
          d = doy - (153 * mp + 2) div 5 + 1;
          m = (if mp < 10 then mp + 3 else mp - 9);
          y = 400 * era + 100 * c + 4 * q + yy + (if m \<le> 2 then 1 else 0)
      in (y, m, d))"

definition year_string :: "int \<Rightarrow> string" where
  "year_string y =
     (if 0 \<le> y \<and> y \<le> 9999 then padStart 4 (decimal (nat y))
      else (if y < 0 then ''-'' else ''+'') @ padStart 6 (decimal (nat \<bar>y\<bar>)))"

definition toISOString :: "int \<Rightarrow> string" where
  "toISOString t =
     (let (y, m, d) = civil_from_days (t div 86400000);
          ms = t mod 86400000
      in year_string y @ ''-'' @ padStart 2 (decimal (nat m)) @ ''-'' @ padStart 2 (decimal (nat d))
         @ ''T'' @ padStart 2 (decimal (nat (ms div 3600000)))
         @ '':'' @ padStart 2 (decimal (nat (ms div 60000 mod 60)))
         @ '':'' @ padStart 2 (decimal (nat (ms div 1000 mod 60)))
         @ ''.'' @ padStart 3 (decimal (nat (ms mod 1000))) @ ''Z'')"

text \<open>The handler; \<open>now\<close> is what \<^verbatim>\<open>new Date()\<close> reads when the body is built.\<close>

definition health_handler :: "js_error option \<Rightarrow> int \<Rightarrow> response" where
  "health_handler fault now =
     (case sequelize_authenticate fault of
        Inr _ \<Rightarrow>
          \<lparr>status = 200, body = HealthBody ''ok'' ''connected'' (toISOString now)\<rparr>
      | Inl error \<Rightarrow>
          \<lparr>status = 503, body = HealthBody ''error'' ''disconnected'' (toISOString now)\<rparr>)"

section \<open>Startup\<close>

text \<open>
  The body of the asynchronous function that \<^verbatim>\<open>app.js\<close> runs at load, up to
  \<^verbatim>\<open>app.listen\<close>. The process is what the claims observe of it: the value of
  \<^verbatim>\<open>process.env.DATABASE_URL\<close>, the console, the routes registered and whether the HTTP
  listener is bound. The collaborators answer through four arguments: what
  \<^verbatim>\<open>getSecret('DATABASE_URL')\<close> resolves to or rejects with, and the faults of
  \<^verbatim>\<open>new Sequelize\<close>, \<^verbatim>\<open>sequelize.authenticate()\<close> and \<^verbatim>\<open>Visit.sync()\<close>.
\<close>

record process =
  DATABASE_URL :: "string option"
  stdio :: "log_entry list"
  routes :: "string list"
  listening :: bool

definition fetch_secrets ::
  "string option \<Rightarrow> js_error + string \<Rightarrow> process \<Rightarrow> js_error \<times> process + process" where
  "fetch_secrets NODE_ENV getSecret p =
     (if NODE_ENV = Some ''production'' then
        (let p1 = p\<lparr>stdio := stdio p @ [ConsoleLog ''Fetching secrets for production...'']\<rparr>
         in case getSecret of
              Inl e \<Rightarrow> Inl (e, p1)
            | Inr secret \<Rightarrow>
                (let p2 = p1\<lparr>DATABASE_URL := Some secret\<rparr>
                 in if secret = [] then Inl (Error ''DATABASE_URL is not set.'', p2)
                    else Inr p2))
      else Inr p)"

definition connect_store ::
  "js_error option \<Rightarrow> js_error option \<Rightarrow> js_error option \<Rightarrow> process
     \<Rightarrow> js_error \<times> process + process" where
  "connect_store new_fault authenticate_fault sync_fault p =
     (case new_fault of
        Some e \<Rightarrow> Inl (e, p)
      | None \<Rightarrow>
     (case sequelize_authenticate authenticate_fault of
        Inl e \<Rightarrow> Inl (e, p)
      | Inr _ \<Rightarrow>
          (let p1 = p\<lparr>stdio := stdio p
                       @ [ConsoleLog ''Database connection established successfully.'']\<rparr>
           in case sync_fault of
                Some e \<Rightarrow> Inl (e, p1)
              | None \<Rightarrow> Inr p1)))"

definition serve :: "nat \<Rightarrow> process \<Rightarrow> process" where
  "serve port p =
     p\<lparr>routes := [''/'', ''/_health'', ''/favicon.ico'', ''/api/client-info'', ''/api/logs'',
                  ''/logs''],
       listening := True,
       stdio := stdio p @ [ConsoleLog (''App running at http://localhost:'' @ decimal port)]\<rparr>"

definition startup ::
  "string option \<Rightarrow> string option \<Rightarrow> nat \<Rightarrow> js_error + string \<Rightarrow> js_error option
     \<Rightarrow> js_error option \<Rightarrow> js_error option \<Rightarrow> process" where
  "startup NODE_ENV url port getSecret new_fault authenticate_fault sync_fault =
     (let p0 = \<lparr>DATABASE_URL = url, stdio = [], routes = [], listening = False\<rparr>
      in case (case fetch_secrets NODE_ENV getSecret p0 of
                 Inl ep \<Rightarrow> Inl ep
               | Inr p1 \<Rightarrow>
                   (case connect_store new_fault authenticate_fault sync_fault p1 of
                      Inl ep \<Rightarrow> Inl ep
                    | Inr p2 \<Rightarrow> Inr (serve port p2))) of
           Inr p \<Rightarrow> p
         | Inl (error, p) \<Rightarrow>
             p\<lparr>stdio := stdio p @ [ConsoleErrorObj ''Failed to initialize application:'' error]\<rparr>)"

text \<open>A request to a path is served when the listener is bound and the route is there.\<close>

definition served :: "process \<Rightarrow> string \<Rightarrow> bool" where
  "served p path \<longleftrightarrow> listening p \<and> path \<in> set (routes p)"

section \<open>The two definitions of the Visit model\<close>

text \<open>
  \<^verbatim>\<open>sequelize.define('Visit', ...)\<close> in \<^verbatim>\<open>app.js\<close>, the model the handlers use, and
  \<^verbatim>\<open>Visit.init\<close> in \<^verbatim>\<open>models/visit.js\<close>: the attributes with their column types.
\<close>

datatype DataTypes = STRING | TEXT | FLOAT | DATE

definition app_Visit :: "(string \<times> DataTypes) list" where
  "app_Visit =
     [(''ip'', STRING), (''user_agent'', TEXT), (''city'', STRING), (''region'', STRING),
      (''country'', STRING), (''latitude'', STRING), (''longitude'', STRING),
      (''visited_at'', DATE)]"

definition models_Visit :: "(string \<times> DataTypes) list" where
  "models_Visit =
     [(''ip'', STRING), (''user_agent'', TEXT), (''city'', STRING), (''region'', STRING),
      (''country'', STRING), (''latitude'', FLOAT), (''longitude'', FLOAT),
      (''visited_at'', DATE)]"

section \<open>The words of the specification\<close>

text \<open>
  The specification's ``integer'', for a query parameter: the text is a decimal
  integer, an optional sign and then digits and nothing else (a parameter that has no
  text is none). This follows the specification, not \<^verbatim>\<open>app.js\<close>, and is compared with
  what the handler accepts.
\<close>

definition decimal_integer :: "js_string \<Rightarrow> int option" where
  "decimal_integer s =
     (let sign = (case s of c # _ \<Rightarrow> if c = 45 then - 1 else 1 | [] \<Rightarrow> (1::int));
          ds = (case s of c # r \<Rightarrow> if c = 43 \<or> c = 45 then r else s | [] \<Rightarrow> s)
      in if ds \<noteq> [] \<and> list_all (is_digit 10) ds then Some (sign * int (radix_value 10 ds))
         else None)"

definition spec_page_valid :: "qvalue option \<Rightarrow> bool" where
  "spec_page_valid page =
     (case page_arg page of
        Inl e \<Rightarrow> False
      | Inr s \<Rightarrow> (case decimal_integer s of Some p \<Rightarrow> 1 \<le> p | None \<Rightarrow> False))"

definition spec_limit_valid :: "qvalue option \<Rightarrow> bool" where
  "spec_limit_valid limit =
     (case limit_arg limit of
        Inl e \<Rightarrow> False
      | Inr s \<Rightarrow>
          (case decimal_integer s of Some l \<Rightarrow> 1 \<le> l \<and> l \<le> 100 | None \<Rightarrow> False))"

text \<open>
  The specification's ``ISO-formatted datetime'': \<^verbatim>\<open>YYYY-MM-DDTHH:mm:ss.sssZ\<close>, or the
  same with a sign and a year of six digits, with the month, day, hour, minute and
  second in their ranges.
\<close>

definition digit_of :: "char \<Rightarrow> nat option" where
  "digit_of c = (if 48 \<le> (of_char c :: nat) \<and> (of_char c :: nat) \<le> 57
                 then Some (of_char c - 48) else None)"

fun number_of :: "string \<Rightarrow> nat option" where
  "number_of [] = Some 0"
| "number_of (c # cs) =
     (case digit_of c of
        None \<Rightarrow> None
      | Some d \<Rightarrow> (case number_of cs of None \<Rightarrow> None | Some n \<Rightarrow> Some (d * 10 ^ length cs + n)))"

definition in_range :: "string \<Rightarrow> nat \<Rightarrow> nat \<Rightarrow> bool" where
  "in_range s lo hi = (case number_of s of None \<Rightarrow> False | Some n \<Rightarrow> lo \<le> n \<and> n \<le> hi)"

definition iso_date_time :: "string \<Rightarrow> bool" where
  "iso_date_time s \<longleftrightarrow>
     length s = 20 \<and>
     s ! 0 = CHR ''-'' \<and> in_range (take 2 (drop 1 s)) 1 12 \<and>
     s ! 3 = CHR ''-'' \<and> in_range (take 2 (drop 4 s)) 1 31 \<and>
     s ! 6 = CHR ''T'' \<and> in_range (take 2 (drop 7 s)) 0 23 \<and>
     s ! 9 = CHR '':'' \<and> in_range (take 2 (drop 10 s)) 0 59 \<and>
     s ! 12 = CHR '':'' \<and> in_range (take 2 (drop 13 s)) 0 59 \<and>
     s ! 15 = CHR ''.'' \<and> in_range (take 3 (drop 16 s)) 0 999 \<and>
     s ! 19 = CHR ''Z''"

definition iso_datetime :: "string \<Rightarrow> bool" where
  "iso_datetime s \<longleftrightarrow>
     (in_range (take 4 s) 0 9999 \<and> iso_date_time (drop 4 s)) \<or>
     ((s ! 0 = CHR ''+'' \<or> s ! 0 = CHR ''-'') \<and> in_range (take 6 (drop 1 s)) 0 999999
        \<and> iso_date_time (drop 7 s))"

section \<open>Reading a response\<close>

text \<open>The \<^verbatim>\<open>locationData\<close> of a response body, where it has one.\<close>

definition response_location :: "response \<Rightarrow> location option" where
  "response_location r = (case body r of ClientInfoBody _ _ l \<Rightarrow> Some l | _ \<Rightarrow> None)"

text \<open>The response a run of the pagination handler sent, if it sent one.\<close>

definition sent_response :: "js_error + response \<times> log_entry list \<Rightarrow> response option" where
  "sent_response r = (case r of Inr (response, logged) \<Rightarrow> Some response | Inl e \<Rightarrow> None)"

section \<open>The words of the specification: a failed lookup\<close>

text \<open>
  The specification's failed geolocation call, on what \<^verbatim>\<open>axios.get\<close> answers: the call
  rejects (a timeout, a status outside 2xx, a network error), or the body is no JSON
  object (a malformed body arrives as a string), or the object has none of the five
  fields the handler reads.
\<close>

definition location_fields :: "string list" where
  "location_fields = [''city'', ''region'', ''country_name'', ''latitude'', ''longitude'']"

definition geolocation_failed :: "js_error + jsval \<Rightarrow> bool" where
  "geolocation_failed r =
     (case r of
        Inl e \<Rightarrow> True
      | Inr (JObj kvs) \<Rightarrow> list_all (\<lambda>k. map_of kvs k = None) location_fields
      | Inr _ \<Rightarrow> True)"

text \<open>A field the provider supplied, with a falsy value: 0, the empty string, \<^verbatim>\<open>false\<close>, \<^verbatim>\<open>null\<close>.\<close>

definition present_but_falsy :: "(string \<times> jsval) list \<Rightarrow> string \<Rightarrow> bool" where
  "present_but_falsy kvs k = (case map_of kvs k of Some v \<Rightarrow> \<not> truthy v | None \<Rightarrow> False)"

section \<open>Sample data\<close>

text \<open>A row with the given address and time, for the worked examples.\<close>

definition sample_visit :: "string \<Rightarrow> int \<Rightarrow> visit" where
  "sample_visit a t =
     \<lparr>ip = a, user_agent = ''curl/8.0'', city = Some ''Paris'', region = Some ''IDF'',
      country = Some ''France'', latitude = ''48.85'', longitude = ''2.35'', visited_at = t\<rparr>"

text \<open>Requests for the worked examples: one through a proxy, one from the local machine.\<close>

definition remote_request :: request where
  "remote_request =
     \<lparr>hdr_x_forwarded_for = Some ''203.0.113.7'', remoteAddress = Some ''10.0.0.2'',
      hdr_user_agent = Some ''curl/8.0''\<rparr>"

definition mapped_loopback_request :: request where
  "mapped_loopback_request =
     \<lparr>hdr_x_forwarded_for = None, remoteAddress = Some ''::ffff:127.0.0.1'',
      hdr_user_agent = Some ''curl/8.0''\<rparr>"

section \<open>Facts about rounding\<close>

lemma round_to_lower:
  assumes "2 ^ k \<le> n" and "p \<le> k" and "0 < p"
  shows "2 ^ k \<le> round_to p n"
proof -
  define F where "F = floorlog 2 n"
  define e where "e = F - p"
  define q where "q = n div 2 ^ e"
  define q' where "q' = (if 2 ^ e < 2 * (n mod 2 ^ e) \<or> (2 * (n mod 2 ^ e) = 2 ^ e \<and> odd q)
      then q + 1 else q)"
  have n0: "0 < n"
    using assms(1) by (cases "n = 0") auto
  have kF: "Suc k \<le> F"
    unfolding F_def using assms(1) by (intro floorlog_ge_SucI) simp_all
  with assms(2,3) have F: "F - 1 = (p - 1) + e" and pF: "k \<le> F - 1"
    by (simp_all add: e_def)
  from floorlog_bounds[OF n0, of 2] have low: "2 ^ (F - 1) \<le> n"
    by (simp add: F_def)
  have "(2::nat) ^ (F - 1) = 2 ^ (p - 1) * 2 ^ e"
    by (simp only: F power_add)
  with low have "2 ^ (p - 1) * 2 ^ e \<le> n"
    by simp
  then have "2 ^ (p - 1) \<le> q"
    unfolding q_def by (simp add: less_eq_div_iff_mult_less_eq)
  then have "2 ^ (p - 1) \<le> q'"
    by (simp add: q'_def)
  then have "2 ^ (p - 1) * 2 ^ e \<le> q' * 2 ^ e"
    by (rule mult_le_mono1)
  then have "2 ^ (F - 1) \<le> q' * 2 ^ e"
    by (simp only: F power_add)
  moreover have "(2::nat) ^ k \<le> 2 ^ (F - 1)"
    using pF by (intro power_increasing) simp_all
  moreover have "round_to p n = q' * 2 ^ e"
    by (simp add: round_to_def Let_def q'_def q_def e_def F_def)
  ultimately show ?thesis
    by linarith
qed

lemma round_to_upper:
  assumes "n < 2 ^ k" and "2 ^ p \<le> n"
  shows "round_to p n \<le> 2 ^ k"
proof -
  define F where "F = floorlog 2 n"
  define e where "e = F - p"
  define q where "q = n div 2 ^ e"
  define q' where "q' = (if 2 ^ e < 2 * (n mod 2 ^ e) \<or> (2 * (n mod 2 ^ e) = 2 ^ e \<and> odd q)
      then q + 1 else q)"
  have n0: "0 < n"
    using assms(2) by (cases "n = 0") auto
  have "Suc p \<le> F"
    unfolding F_def using assms(2) by (intro floorlog_ge_SucI) simp_all
  then have F: "F = p + e"
    by (simp add: e_def)
  have Fk: "F \<le> k"
    unfolding F_def using assms(1) by (intro floorlog_leI) simp_all
  from floorlog_bounds[OF n0, of 2] have "n < 2 ^ F"
    by (simp add: F_def)
  then have "n < 2 ^ p * 2 ^ e"
    by (simp only: F power_add)
  then have "q < 2 ^ p"
    unfolding q_def by (simp add: less_mult_imp_div_less)
  then have "q' \<le> 2 ^ p"
    by (simp add: q'_def)
  then have "q' * 2 ^ e \<le> 2 ^ p * 2 ^ e"
    by (rule mult_le_mono1)
  then have "q' * 2 ^ e \<le> 2 ^ F"
    by (simp only: F power_add)
  moreover have "(2::nat) ^ F \<le> 2 ^ k"
    using Fk by (intro power_increasing) simp_all
  moreover have "round_to p n = q' * 2 ^ e"
    by (simp add: round_to_def Let_def q'_def q_def e_def F_def)
  ultimately show ?thesis
    by linarith
qed

lemma round_to_power:
  assumes "0 < p"
  shows "round_to p (2 ^ p) = 2 ^ p"
proof -
  have "floorlog 2 (1 * (2::nat) ^ p) = floorlog 2 1 + p"
    by (rule floorlog_power) simp_all
  moreover have "floorlog 2 (1::nat) = 1"
    by (simp add: compute_floorlog)
  ultimately have e: "floorlog 2 ((2::nat) ^ p) - p = 1"
    by simp
  from assms have ev: "2 dvd ((2::nat) ^ p)"
    by simp
  then have m: "(2::nat) ^ p mod 2 = 0"
    by simp
  from dvd_div_mult_self[OF ev] have d: "(2::nat) ^ p div 2 * 2 = 2 ^ p" .
  show ?thesis
    by (simp add: round_to_def Let_def e m d)
qed

lemma half_even_near:
  fixes q r d :: nat
  assumes "r < d"
  shows "\<bar>real (if d < 2 * r \<or> (2 * r = d \<and> odd q) then q + 1 else q) - (real q + real r / real d)\<bar>
           \<le> 1 / 2"
proof -
  from assms have d: "0 < real d" by simp
  from assms have r: "real r / real d < 1" "0 \<le> real r / real d"
    by (simp_all add: d)
  show ?thesis
  proof (cases "d < 2 * r \<or> (2 * r = d \<and> odd q)")
    case True
    then have "d \<le> 2 * r" by auto
    then have "real d \<le> 2 * real r" by (metis of_nat_le_iff of_nat_mult of_nat_numeral)
    with d have "1 / 2 \<le> real r / real d" by (simp add: field_simps)
    with r have "\<bar>real (q + 1) - (real q + real r / real d)\<bar> \<le> 1 / 2" by simp
    then show ?thesis by (simp only: if_P[OF True])
  next
    case False
    then have "2 * r \<le> d" by auto
    then have "2 * real r \<le> real d" by (metis of_nat_le_iff of_nat_mult of_nat_numeral)
    with d have "real r / real d \<le> 1 / 2" by (simp add: field_simps)
    with r have "\<bar>real q - (real q + real r / real d)\<bar> \<le> 1 / 2" by simp
    then show ?thesis by (simp only: if_not_P[OF False])
  qed
qed

lemma quotient_to_shape:
  assumes "0 < a" and "0 < b" and "0 < p"
  obtains s e q r where
    "quotient_to p a b
       = real ((if b * 2 ^ e < 2 * r \<or> (2 * r = b * 2 ^ e \<and> odd q) then q + 1 else q) * 2 ^ e)
           / 2 ^ s"
    and "a * 2 ^ s = q * (b * 2 ^ e) + r" and "r < b * 2 ^ e" and "2 ^ (p - 1) \<le> q"
    and "e = floorlog 2 (a * 2 ^ s div b) - p" and "s = p + floorlog 2 b"
proof -
  define s where "s = p + floorlog 2 b"
  define N where "N = a * 2 ^ s"
  define m where "m = N div b"
  define F where "F = floorlog 2 m"
  define e where "e = F - p"
  define d where "d = b * 2 ^ e"
  define q where "q = N div d"
  define r where "r = N mod d"
  from floorlog_bounds[OF assms(2), of 2] have "b \<le> 2 ^ floorlog 2 b"
    by simp
  then have "2 ^ p * b \<le> 2 ^ p * 2 ^ floorlog 2 b"
    by simp
  also have "\<dots> = 1 * 2 ^ s"
    by (simp add: s_def power_add)
  also have "\<dots> \<le> a * 2 ^ s"
    using assms(1) by (intro mult_le_mono1) simp
  finally have "2 ^ p * b \<le> N"
    by (simp add: N_def)
  then have m: "2 ^ p \<le> m"
    unfolding m_def using assms(2) by (simp add: less_eq_div_iff_mult_less_eq)
  then have m0: "0 < m"
    by (cases "m = 0") auto
  have "Suc p \<le> F"
    unfolding F_def using m by (intro floorlog_ge_SucI) simp_all
  with assms(3) have F: "F - 1 = (p - 1) + e"
    by (simp add: e_def)
  from floorlog_bounds[OF m0, of 2] have "2 ^ (F - 1) \<le> m"
    by (simp add: F_def)
  then have "2 ^ (p - 1) * 2 ^ e \<le> m"
    by (simp only: F power_add)
  then have "2 ^ (p - 1) \<le> m div 2 ^ e"
    by (simp add: less_eq_div_iff_mult_less_eq)
  moreover have "q = m div 2 ^ e"
    by (simp add: q_def d_def m_def div_mult2_eq)
  ultimately have q: "2 ^ (p - 1) \<le> q"
    by simp
  have d0: "0 < d"
    using assms(2) by (simp add: d_def)
  have split: "a * 2 ^ s = q * d + r"
    by (simp add: q_def r_def N_def)
  have rd: "r < d"
    using d0 by (simp add: r_def)
  have "quotient_to p a b
       = real ((if d < 2 * r \<or> (2 * r = d \<and> odd q) then q + 1 else q) * 2 ^ e) / 2 ^ s"
    by (simp add: quotient_to_def Let_def s_def N_def m_def F_def e_def d_def q_def r_def)
  with split rd q show ?thesis
    by (intro that[of e r q s]) (simp_all add: d_def e_def F_def m_def N_def s_def)
qed


lemma quotient_to_near:
  assumes "0 < a" and "0 < b" and "0 < p"
  shows "\<bar>quotient_to p a b - real a / real b\<bar> \<le> (real a / real b) / 2 ^ p"
proof -
  from quotient_to_shape[OF assms] obtain s e q r where
    rq: "quotient_to p a b
       = real ((if b * 2 ^ e < 2 * r \<or> (2 * r = b * 2 ^ e \<and> odd q) then q + 1 else q) * 2 ^ e)
           / 2 ^ s"
    and split: "a * 2 ^ s = q * (b * 2 ^ e) + r" and rd: "r < b * 2 ^ e"
    and q: "2 ^ (p - 1) \<le> q"
    by metis
  define d where "d = b * 2 ^ e"
  define Q where "Q = real (if d < 2 * r \<or> (2 * r = d \<and> odd q) then q + 1 else q)"
  define X where "X = real q + real r / real d"
  define u where "u = (2::real) ^ e / 2 ^ s"
  have d0: "0 < real d"
    using assms(2) by (simp add: d_def)
  have u0: "0 < u"
    by (simp add: u_def)
  have near: "\<bar>Q - X\<bar> \<le> 1 / 2"
    unfolding Q_def X_def using rd by (intro half_even_near) (simp add: d_def)
  have "real (a * 2 ^ s) = real (q * d + r)"
    using split by (simp add: d_def)
  then have "real a * 2 ^ s = X * real d"
    using d0 by (simp add: X_def field_simps)
  then have "real a * 2 ^ s = X * real b * 2 ^ e"
    by (simp add: d_def)
  then have x: "real a / real b = X * u"
    using assms(2) by (simp add: u_def field_simps)
  have rq': "quotient_to p a b = Q * u"
    by (simp add: rq Q_def u_def d_def)
  have "\<bar>quotient_to p a b - real a / real b\<bar> = \<bar>Q - X\<bar> * u"
    using u0 by (simp add: rq' x left_diff_distrib[symmetric] abs_mult)
  also have "\<dots> \<le> 1 / 2 * u"
    using near u0 by (intro mult_right_mono) simp_all
  finally have err: "\<bar>quotient_to p a b - real a / real b\<bar> \<le> u / 2"
    by simp
  have "real (2 ^ (p - 1)) \<le> real q"
    using q by (simp only: of_nat_le_iff)
  also have "\<dots> \<le> X"
    using d0 by (simp add: X_def)
  finally have "2 ^ (p - 1) * u \<le> X * u"
    using u0 by (intro mult_right_mono) simp_all
  then have le: "2 ^ (p - 1) * u \<le> real a / real b"
    by (simp add: x)
  from assms(3) have P: "(2::real) ^ p = 2 * 2 ^ (p - 1)"
    by (cases p) simp_all
  have "u / 2 = (2 ^ (p - 1) * u) / 2 ^ p"
    by (simp only: P) simp
  also have "\<dots> \<le> (real a / real b) / 2 ^ p"
    using le by (intro divide_right_mono) simp_all
  finally have "u / 2 \<le> (real a / real b) / 2 ^ p" .
  with err show ?thesis
    by linarith
qed

lemma quotient_to_exact:
  assumes a: "0 < k" and kp: "k < 2 ^ p" and b: "0 < b" and p: "0 < p"
  shows "quotient_to p (k * b) b = real k"
proof -
  have a0: "0 < k * b"
    using a b by simp
  show ?thesis
  proof (rule quotient_to_shape[OF a0 b p])
    fix s e q r
    assume rq: "quotient_to p (k * b) b
       = real ((if b * 2 ^ e < 2 * r \<or> (2 * r = b * 2 ^ e \<and> odd q) then q + 1 else q) * 2 ^ e)
           / 2 ^ s"
      and split: "k * b * 2 ^ s = q * (b * 2 ^ e) + r" and rd: "r < b * 2 ^ e"
      and "2 ^ (p - 1) \<le> q"
      and e: "e = floorlog 2 (k * b * 2 ^ s div b) - p" and s: "s = p + floorlog 2 b"
    have "k * b * 2 ^ s = b * (k * 2 ^ s)"
      by simp
    then have "k * b * 2 ^ s div b = k * 2 ^ s"
      using b by simp
    then have "floorlog 2 (k * b * 2 ^ s div b) = floorlog 2 k + s"
      using floorlog_power[of k 2 s] a by simp
    moreover have "floorlog 2 k \<le> p"
      using kp by (intro floorlog_leI) simp_all
    ultimately have es: "e \<le> s"
      using e by simp
    define t where "t = s - e"
    have st: "s = t + e"
      using es by (simp add: t_def)
    define d where "d = b * 2 ^ e"
    have d0: "0 < d"
      using b by (simp add: d_def)
    have "k * b * 2 ^ s = (k * 2 ^ t) * d"
      by (simp add: st power_add d_def)
    with split have eq: "q * d + r = (k * 2 ^ t) * d"
      by (simp only: d_def)
    have rd': "r < d"
      using rd by (simp only: d_def)
    have "(q * d + r) mod d = r"
      using rd' by simp
    moreover have "((k * 2 ^ t) * d) mod d = 0"
      by simp
    ultimately have r0: "r = 0"
      using eq by simp
    with eq d0 have q: "q = k * 2 ^ t"
      by simp
    have "\<not> (d < 2 * r \<or> (2 * r = d \<and> odd q))"
      using d0 r0 by simp
    then have "(if d < 2 * r \<or> (2 * r = d \<and> odd q) then q + 1 else q) = q"
      by (rule if_not_P)
    then have "quotient_to p (k * b) b = real (q * 2 ^ e) / 2 ^ s"
      unfolding rq d_def by (rule arg_cong[where f = "\<lambda>x. real (x * 2 ^ e) / 2 ^ s"])
    also have "q * 2 ^ e = k * 2 ^ s"
      by (simp add: q st power_add)
    also have "real (k * 2 ^ s) / 2 ^ s = real k"
      by simp
    finally show ?thesis .
  qed
qed

lemma quotient_to_ceiling:
  assumes a: "0 < a" and ap: "a < 2 ^ p" and b: "0 < b" and p: "0 < p"
  shows "\<lceil>quotient_to p a b\<rceil> = \<lceil>real a / real b\<rceil>"
proof (cases "a mod b = 0")
  case True
  define k where "k = a div b"
  from True have ak: "a = k * b"
    unfolding k_def using div_mult_mod_eq[of a b] by simp
  with a have k0: "0 < k"
    by (cases "k = 0") simp_all
  have "k \<le> a"
    by (simp add: k_def)
  with ap have "k < 2 ^ p"
    by simp
  from quotient_to_exact[OF k0 this b p] have "quotient_to p a b = real k"
    by (simp add: ak)
  moreover have "real a / real b = real k"
    using b by (simp add: ak)
  ultimately show ?thesis
    by simp
next
  case False
  define k where "k = a div b"
  define j where "j = a mod b"
  have j: "1 \<le> j" "j + 1 \<le> b"
    using False b by (simp_all add: j_def Suc_leI)
  have "a = k * b + j"
    by (simp add: k_def j_def)
  then have "real a = real k * real b + real j"
    by (metis of_nat_add of_nat_mult)
  then have x: "real a / real b = real k + real j / real b"
    using b by (simp add: field_simps)
  have jl: "1 / real b \<le> real j / real b"
    using j(1) b by (intro divide_right_mono) simp_all
  have "real j + 1 \<le> real b"
    using j(2) by (metis of_nat_1 of_nat_add of_nat_le_iff)
  then have "(real j + 1) / real b \<le> real b / real b"
    by (intro divide_right_mono) simp_all
  then have ju: "real j / real b + 1 / real b \<le> 1"
    using b by (simp add: add_divide_distrib)
  have "real a < 2 ^ p"
    using ap by (metis of_nat_less_iff of_nat_numeral of_nat_power)
  then have "real a / 2 ^ p < 1"
    by simp
  then have "real a / 2 ^ p / real b < 1 / real b"
    using b by (intro divide_strict_right_mono) simp_all
  then have small: "real a / real b / 2 ^ p < 1 / real b"
    by (simp add: field_simps)
  from quotient_to_near[OF a b p] small
  have near: "\<bar>quotient_to p a b - real a / real b\<bar> < 1 / real b"
    by linarith
  have "real k < quotient_to p a b" "quotient_to p a b \<le> real k + 1"
    using near jl ju unfolding x by linarith+
  then have "\<lceil>quotient_to p a b\<rceil> = int k + 1"
    by (intro ceiling_unique) simp_all
  moreover have b1: "0 < 1 / real b"
    using b by simp
  have "real k < real a / real b" "real a / real b \<le> real k + 1"
    using jl ju b1 unfolding x by linarith+
  then have "\<lceil>real a / real b\<rceil> = int k + 1"
    by (intro ceiling_unique) simp_all
  ultimately show ?thesis
    by simp
qed

lemma quotient_to_zero: "quotient_to p 0 b = 0"
  by (simp add: quotient_to_def)

lemma round_to_small:
  assumes "n < 2 ^ p"
  shows "round_to p n = n"
proof -
  have "floorlog 2 n \<le> p"
    using assms by (intro floorlog_leI) simp_all
  then have "floorlog 2 n - p = 0"
    by simp
  then show ?thesis
    by (simp add: round_to_def Let_def)
qed

lemma to_number_finite:
  assumes "round_to 53 (nat \<bar>n\<bar>) < 2 ^ 1024"
  shows "to_number n = Finite (sgn n * int (round_to 53 (nat \<bar>n\<bar>)))"
  unfolding to_number_def Let_def by (simp only: assms if_True)

lemma to_number_infinite:
  assumes "\<not> round_to 53 (nat \<bar>n\<bar>) < 2 ^ 1024"
  shows "to_number n = (if 0 < n then Infinity else NegInfinity)"
  unfolding to_number_def Let_def by (simp only: assms if_False)

lemma below_overflow:
  assumes "m \<le> 2 ^ k" and "k < 1024"
  shows "m < (2::nat) ^ 1024"
proof -
  have "(2::nat) ^ k < 2 ^ 1024"
    by (rule power_strict_increasing) (use assms(2) in simp_all)
  with assms(1) show ?thesis
    by (rule le_less_trans)
qed

text \<open>Integers of magnitude up to \<open>2 ^ 53\<close> are doubles.\<close>

lemma to_number_exact:
  assumes "\<bar>n\<bar> \<le> 2 ^ 53"
  shows "to_number n = Finite n"
proof -
  define k where "k = nat \<bar>n\<bar>"
  have k: "k \<le> 2 ^ 53"
    using assms by (simp add: k_def nat_le_iff)
  have r: "round_to 53 k = k"
  proof (cases "k = 2 ^ 53")
    case True
    then show ?thesis
      using round_to_power[of 53] by simp
  next
    case False
    with k have "k < 2 ^ 53"
      by simp
    then show ?thesis
      by (rule round_to_small)
  qed
  have "round_to 53 k < 2 ^ 1024"
    unfolding r using k by (rule below_overflow) simp
  then have "to_number n = Finite (sgn n * int (round_to 53 k))"
    unfolding k_def by (rule to_number_finite)
  moreover have "sgn n * int k = n"
    by (simp add: k_def mult_sgn_abs)
  ultimately show ?thesis
    by (simp only: r)
qed

text \<open>A larger integer is read as a double that is no smaller, or as \<^verbatim>\<open>Infinity\<close>.\<close>

lemma to_number_large:
  assumes "2 ^ k \<le> n" and "53 \<le> k"
  shows "to_number n = Infinity \<or> (\<exists>m. to_number n = Finite m \<and> 2 ^ k \<le> m)"
proof -
  define j where "j = nat \<bar>n\<bar>"
  have "(0::int) < 2 ^ k"
    by simp
  with assms(1) have n: "0 < n"
    by linarith
  then have nj: "n = int j"
    by (simp add: j_def)
  with assms(1) have "int (2 ^ k) \<le> int j"
    by simp
  then have j: "2 ^ k \<le> j"
    by (simp only: of_nat_le_iff)
  from round_to_lower[OF j assms(2)] have "2 ^ k \<le> round_to 53 j"
    by simp
  then have "int (2 ^ k) \<le> int (round_to 53 j)"
    by (simp only: of_nat_le_iff)
  then have lo: "2 ^ k \<le> int (round_to 53 j)"
    by simp
  from n have s: "sgn n = 1"
    by simp
  show ?thesis
  proof (cases "round_to 53 j < 2 ^ 1024")
    case True
    then have "to_number n = Finite (sgn n * int (round_to 53 j))"
      unfolding j_def by (rule to_number_finite)
    with lo s show ?thesis
      by simp
  next
    case False
    then have "to_number n = (if 0 < n then Infinity else NegInfinity)"
      unfolding j_def by (rule to_number_infinite)
    with n show ?thesis
      by simp
  qed
qed

lemma to_number_bounded:
  assumes "2 ^ 53 \<le> n" and "n < 2 ^ 60"
  shows "\<exists>m. to_number n = Finite m \<and> 2 ^ 53 \<le> m \<and> m < 2 ^ 63"
proof -
  define k where "k = nat \<bar>n\<bar>"
  have "(0::int) < 2 ^ 53"
    by simp
  with assms(1) have n: "0 < n"
    by linarith
  then have nk: "n = int k"
    by (simp add: k_def)
  with assms(1) have "int (2 ^ 53) \<le> int k"
    by simp
  then have k: "2 ^ 53 \<le> k"
    by (simp only: of_nat_le_iff)
  have "int k < int (2 ^ 60)"
    using assms(2) nk by simp
  then have k60: "k < 2 ^ 60"
    by (simp only: of_nat_less_iff)
  from round_to_lower[OF k order_refl] have "2 ^ 53 \<le> round_to 53 k"
    by simp
  then have "int (2 ^ 53) \<le> int (round_to 53 k)"
    by (simp only: of_nat_le_iff)
  then have lo: "2 ^ 53 \<le> int (round_to 53 k)"
    by simp
  from round_to_upper[OF k60 k] have hi: "round_to 53 k \<le> 2 ^ 60" .
  then have "int (round_to 53 k) \<le> int (2 ^ 60)"
    by (simp only: of_nat_le_iff)
  then have h63: "int (round_to 53 k) < 2 ^ 63"
    by simp
  from hi have "round_to 53 k < 2 ^ 1024"
    by (rule below_overflow) simp
  then have "to_number n = Finite (sgn n * int (round_to 53 k))"
    unfolding k_def by (rule to_number_finite)
  moreover from n have "sgn n = 1"
    by simp
  ultimately show ?thesis
    using lo h63 by simp
qed

text \<open>A positive integer is read as a Number that is neither \<^verbatim>\<open>NaN\<close> nor below 1.\<close>

lemma to_number_positive:
  assumes "1 \<le> n"
  shows "\<not> isNaN (to_number n) \<and> \<not> number_less (to_number n) (Finite 1)"
proof (cases "n \<le> 2 ^ 53")
  case True
  with assms have "to_number n = Finite n"
    by (intro to_number_exact) simp
  with assms show ?thesis
    by (simp add: isNaN_def)
next
  case False
  then have "2 ^ 53 \<le> n"
    by simp
  from to_number_large[OF this order_refl] show ?thesis
  proof
    assume "to_number n = Infinity"
    then show ?thesis
      by (simp add: isNaN_def)
  next
    assume "\<exists>m. to_number n = Finite m \<and> 2 ^ 53 \<le> m"
    then obtain m where m: "to_number n = Finite m" "2 ^ 53 \<le> m"
      by blast
    have "(1::int) \<le> 2 ^ 53"
      by simp
    with m(2) have "1 \<le> m"
      by linarith
    with m(1) show ?thesis
      by (simp add: isNaN_def)
  qed
qed

text \<open>
  \<^verbatim>\<open>Math.ceil(a / b)\<close> is the ceiling of the exact quotient when \<open>a\<close> is a count below
  \<open>2 ^ 53\<close> and \<open>b\<close> a positive integer.
\<close>

lemma Math_ceil_div_exact:
  assumes "0 \<le> a" and "a < 2 ^ 53" and "1 \<le> b"
  shows "Math_ceil_div (Finite a) (Finite b) = Finite \<lceil>real_of_int a / real_of_int b\<rceil>"
proof (cases "a = 0")
  case True
  with assms(3) show ?thesis
    by (simp add: quotient_to_zero)
next
  case False
  define x where "x = nat \<bar>a\<bar>"
  define y where "y = nat \<bar>b\<bar>"
  from False assms have x: "0 < x" "int x = a" and y: "0 < y" "int y = b"
    by (simp_all add: x_def y_def)
  have "int x < int (2 ^ 53)"
    using assms(2) x(2) by simp
  then have x53: "x < 2 ^ 53"
    by (simp only: of_nat_less_iff)
  have unfolded: "Math_ceil_div (Finite a) (Finite b)
      = Finite \<lceil>of_int (sgn a * sgn b) * quotient_to 53 x y\<rceil>"
    unfolding x_def y_def using assms(3) by (simp only: Math_ceil_div.simps) simp
  have "sgn a * sgn b = 1"
    using False assms by simp
  then have "of_int (sgn a * sgn b) * quotient_to 53 x y = quotient_to 53 x y"
    by simp
  moreover from quotient_to_ceiling[OF x(1) x53 y(1)]
  have "\<lceil>quotient_to 53 x y\<rceil> = \<lceil>real x / real y\<rceil>"
    by simp
  moreover have "real x = real_of_int a" "real y = real_of_int b"
    using x(2) y(2) by (metis of_int_of_nat_eq)+
  ultimately show ?thesis
    by (simp only: unfolded)
qed

section \<open>Facts about parseInt\<close>

lemma is_digit_10: "is_digit 10 c \<longleftrightarrow> 48 \<le> c \<and> c \<le> 57"
  by (auto simp: is_digit_def digit_value_def Let_def split: if_splits option.splits)

lemma digit_not_white_space: "is_digit 10 c \<Longrightarrow> \<not> is_white_space c"
  by (auto simp: is_digit_10 is_white_space_def)

lemma takeWhile_all: "list_all P xs \<Longrightarrow> takeWhile P xs = xs"
  by (induction xs) auto

lemma digits_not_hex:
  "list_all (is_digit 10) ds \<Longrightarrow>
     (case ds of a # b # x \<Rightarrow> a = 48 \<and> (b = 120 \<or> b = 88) | _ \<Rightarrow> False) = False"
  by (auto simp: is_digit_10 split: list.splits)

text \<open>On a decimal integer, \<^verbatim>\<open>parseInt\<close> reads the integer, as a double.\<close>

lemma parseInt_decimal_integer:
  assumes "decimal_integer s = Some n"
  shows "parseInt s = to_number n"
proof -
  define sign where "sign = (case s of c # _ \<Rightarrow> if c = 45 then - 1 else 1 | [] \<Rightarrow> (1::int))"
  define ds where "ds = (case s of c # r \<Rightarrow> if c = 43 \<or> c = 45 then r else s | [] \<Rightarrow> s)"
  from assms have ds: "ds \<noteq> []" "list_all (is_digit 10) ds"
    and n: "n = sign * int (radix_value 10 ds)"
    by (auto simp: decimal_integer_def Let_def sign_def ds_def split: if_splits)
  have "s \<noteq> [] \<and> \<not> is_white_space (hd s)"
  proof (cases s)
    case Nil
    with ds show ?thesis by (simp add: ds_def)
  next
    case (Cons c r)
    show ?thesis
    proof (cases "c = 43 \<or> c = 45")
      case True
      with Cons show ?thesis by (auto simp: is_white_space_def)
    next
      case False
      with Cons ds(2) show ?thesis by (simp add: ds_def digit_not_white_space)
    qed
  qed
  then have S: "dropWhile is_white_space s = s"
    by (cases s) auto
  show ?thesis
    unfolding parseInt_def Let_def S sign_def[symmetric] ds_def[symmetric]
      digits_not_hex[OF ds(2)]
    using ds(1) by (simp add: takeWhile_all[OF ds(2)] n)
qed

lemma decimal_integer_eval:
  "decimal_integer (utf16 ''1.5'') = None"
  "decimal_integer (utf16 ''0'') = Some 0"
  "decimal_integer (utf16 ''1'') = Some 1"
  "decimal_integer (utf16 ''2'') = Some 2"
  "decimal_integer (utf16 ''3'') = Some 3"
  "decimal_integer (utf16 ''10'') = Some 10"
  "decimal_integer (utf16 ''9007199254740993'') = Some 9007199254740993"
  by (simp_all add: decimal_integer_def utf16_def is_digit_def digit_value_def
      radix_value_def Let_def)

lemma parseInt_eval:
  "parseInt (utf16 ''0'') = Finite 0"
  "parseInt (utf16 ''-1'') = Finite (- 1)"
  "parseInt (utf16 ''abc'') = NaN"
  "parseInt (utf16 ''101'') = Finite 101"
  "parseInt (utf16 ''1'') = Finite 1"
  "parseInt (utf16 ''10'') = Finite 10"
  "parseInt (utf16 ''1.5'') = Finite 1"
  "parseInt (utf16 ''2'') = Finite 2"
  "parseInt (utf16 ''3'') = Finite 3"
  by (simp_all add: parseInt_def utf16_def is_white_space_def is_digit_def digit_value_def
      radix_value_def Let_def to_number_exact)

section \<open>GET /api/logs: validation\<close>

lemma logs_handler_page_error:
  "sent_response (logs_handler page limit fault rows)
     = Some \<lparr>status = 400,
             body = ErrorBody ''Invalid page number. Must be a positive integer.''\<rparr>
   \<longleftrightarrow> (\<exists>ps ls. page_arg page = Inr ps \<and> limit_arg limit = Inr ls
          \<and> (isNaN (parseInt ps) \<or> number_less (parseInt ps) (Finite 1)))"
  by (auto simp: logs_handler_def sent_response_def Let_def split: sum.splits prod.splits)

lemma logs_handler_limit_error:
  "sent_response (logs_handler page limit fault rows)
     = Some \<lparr>status = 400, body = ErrorBody ''Invalid limit. Must be between 1 and 100.''\<rparr>
   \<longleftrightarrow> (\<exists>ps ls. page_arg page = Inr ps \<and> limit_arg limit = Inr ls
          \<and> \<not> (isNaN (parseInt ps) \<or> number_less (parseInt ps) (Finite 1))
          \<and> (isNaN (parseInt ls) \<or> number_less (parseInt ls) (Finite 1)
               \<or> number_less (Finite 100) (parseInt ls)))"
  by (auto simp: logs_handler_def sent_response_def Let_def split: sum.splits prod.splits)

lemma logs_handler_400:
  "(\<exists>r. sent_response (logs_handler page limit fault rows) = Some r \<and> status r = 400)
   \<longleftrightarrow> (\<exists>ps ls. page_arg page = Inr ps \<and> limit_arg limit = Inr ls
          \<and> (isNaN (parseInt ps) \<or> number_less (parseInt ps) (Finite 1)
               \<or> isNaN (parseInt ls) \<or> number_less (parseInt ls) (Finite 1)
               \<or> number_less (Finite 100) (parseInt ls)))"
  by (auto simp: logs_handler_def sent_response_def Let_def split: sum.splits prod.splits)

lemma logs_handler_throws:
  "logs_handler page limit fault rows = Inl e
   \<longleftrightarrow> page_arg page = Inl e \<or> ((\<exists>ps. page_arg page = Inr ps) \<and> limit_arg limit = Inl e)"
  by (auto simp: logs_handler_def Let_def split: sum.splits prod.splits)

lemma logs_handler_no_response:
  "sent_response (logs_handler page limit fault rows) = None
   \<longleftrightarrow> (\<exists>e. page_arg page = Inl e) \<or> (\<exists>e. limit_arg limit = Inl e)"
  by (auto simp: logs_handler_def sent_response_def Let_def split: sum.splits prod.splits)

lemma spec_valid_accepted:
  assumes "spec_page_valid page" "spec_limit_valid limit"
  shows "\<exists>r. sent_response (logs_handler page limit fault rows) = Some r \<and> status r \<noteq> 400"
proof -
  from assms(1) obtain ps p where p: "page_arg page = Inr ps" "decimal_integer ps = Some p" "1 \<le> p"
    by (auto simp: spec_page_valid_def split: sum.splits option.splits)
  from assms(2) obtain ls l where l: "limit_arg limit = Inr ls" "decimal_integer ls = Some l"
      "1 \<le> l" "l \<le> 100"
    by (auto simp: spec_limit_valid_def split: sum.splits option.splits)
  note page = to_number_positive[OF p(3)]
  from l(3,4) have "to_number l = Finite l"
    by (intro to_number_exact) simp
  with l(3,4) have limit: "\<not> isNaN (to_number l)" "\<not> number_less (to_number l) (Finite 1)"
      "\<not> number_less (Finite 100) (to_number l)"
    by (simp_all add: isNaN_def)
  have "\<not> (\<exists>r. sent_response (logs_handler page limit fault rows) = Some r \<and> status r = 400)"
    unfolding logs_handler_400
    using page limit
    by (simp add: p(1) l(1) parseInt_decimal_integer[OF p(2)] parseInt_decimal_integer[OF l(2)])
  moreover have "sent_response (logs_handler page limit fault rows) \<noteq> None"
    unfolding logs_handler_no_response by (simp add: p(1) l(1))
  ultimately show ?thesis
    by auto
qed

lemma logs_handler_throws_toString:
  "logs_handler (Some (QObject [(utf16 ''toString'', QString (utf16 ''1''))])) limit fault rows
     = Inl (TypeError ''Cannot convert object to primitive value'')"
  by (simp add: logs_handler_def page_arg_def)

text \<open>
  C1, as the code has it. When both parameters have a text, the handler answers 400
  with the page message exactly when \<^verbatim>\<open>parseInt\<close> of the page (default 1) is \<^verbatim>\<open>NaN\<close> or
  below 1, and 400 with the limit message exactly when the page passes and \<^verbatim>\<open>parseInt\<close>
  of the limit (default 10) is \<^verbatim>\<open>NaN\<close>, below 1 or above 100; nothing else is answered
  400. No response is sent exactly when the conversion of a parameter to a string
  throws, as it does for \<^verbatim>\<open>page[toString]=1\<close>. A page that is a decimal integer of at
  least 1 with a limit that is a decimal integer from 1 to 100 is answered, and not with
  400. The pages \<^verbatim>\<open>0\<close>, \<^verbatim>\<open>-1\<close> and \<^verbatim>\<open>abc\<close> (the limit absent) and the limits \<^verbatim>\<open>0\<close>, \<^verbatim>\<open>101\<close>
  and \<^verbatim>\<open>abc\<close> (the page absent) are rejected.
\<close>

theorem logs_validation:
  "(sent_response (logs_handler page limit fault rows)
      = Some \<lparr>status = 400,
              body = ErrorBody ''Invalid page number. Must be a positive integer.''\<rparr>
    \<longleftrightarrow> (\<exists>ps ls. page_arg page = Inr ps \<and> limit_arg limit = Inr ls
           \<and> (isNaN (parseInt ps) \<or> number_less (parseInt ps) (Finite 1))))
   \<and> (sent_response (logs_handler page limit fault rows)
      = Some \<lparr>status = 400, body = ErrorBody ''Invalid limit. Must be between 1 and 100.''\<rparr>
    \<longleftrightarrow> (\<exists>ps ls. page_arg page = Inr ps \<and> limit_arg limit = Inr ls
           \<and> \<not> (isNaN (parseInt ps) \<or> number_less (parseInt ps) (Finite 1))
           \<and> (isNaN (parseInt ls) \<or> number_less (parseInt ls) (Finite 1)
                \<or> number_less (Finite 100) (parseInt ls))))
   \<and> ((\<exists>r. sent_response (logs_handler page limit fault rows) = Some r \<and> status r = 400)
    \<longleftrightarrow> (\<exists>ps ls. page_arg page = Inr ps \<and> limit_arg limit = Inr ls
           \<and> (isNaN (parseInt ps) \<or> number_less (parseInt ps) (Finite 1)
                \<or> isNaN (parseInt ls) \<or> number_less (parseInt ls) (Finite 1)
                \<or> number_less (Finite 100) (parseInt ls))))
   \<and> (sent_response (logs_handler page limit fault rows) = None
    \<longleftrightarrow> (\<exists>e. page_arg page = Inl e) \<or> (\<exists>e. limit_arg limit = Inl e))
   \<and> (spec_page_valid page \<and> spec_limit_valid limit
      \<longrightarrow> (\<exists>r. sent_response (logs_handler page limit fault rows) = Some r \<and> status r \<noteq> 400))
   \<and> sent_response (logs_handler (Some (QString (utf16 ''0''))) None fault rows)
       = Some \<lparr>status = 400,
               body = ErrorBody ''Invalid page number. Must be a positive integer.''\<rparr>
   \<and> sent_response (logs_handler (Some (QString (utf16 ''-1''))) None fault rows)
       = Some \<lparr>status = 400,
               body = ErrorBody ''Invalid page number. Must be a positive integer.''\<rparr>
   \<and> sent_response (logs_handler (Some (QString (utf16 ''abc''))) None fault rows)
       = Some \<lparr>status = 400,
               body = ErrorBody ''Invalid page number. Must be a positive integer.''\<rparr>
   \<and> sent_response (logs_handler None (Some (QString (utf16 ''0''))) fault rows)
       = Some \<lparr>status = 400, body = ErrorBody ''Invalid limit. Must be between 1 and 100.''\<rparr>
   \<and> sent_response (logs_handler None (Some (QString (utf16 ''101''))) fault rows)
       = Some \<lparr>status = 400, body = ErrorBody ''Invalid limit. Must be between 1 and 100.''\<rparr>
   \<and> sent_response (logs_handler None (Some (QString (utf16 ''abc''))) fault rows)
       = Some \<lparr>status = 400, body = ErrorBody ''Invalid limit. Must be between 1 and 100.''\<rparr>
   \<and> logs_handler (Some (QObject [(utf16 ''toString'', QString (utf16 ''1''))])) limit fault rows
       = Inl (TypeError ''Cannot convert object to primitive value'')"
proof -
  have instances:
    "sent_response (logs_handler (Some (QString (utf16 ''0''))) None fault rows)
       = Some \<lparr>status = 400,
               body = ErrorBody ''Invalid page number. Must be a positive integer.''\<rparr>"
    "sent_response (logs_handler (Some (QString (utf16 ''-1''))) None fault rows)
       = Some \<lparr>status = 400,
               body = ErrorBody ''Invalid page number. Must be a positive integer.''\<rparr>"
    "sent_response (logs_handler (Some (QString (utf16 ''abc''))) None fault rows)
       = Some \<lparr>status = 400,
               body = ErrorBody ''Invalid page number. Must be a positive integer.''\<rparr>"
    "sent_response (logs_handler None (Some (QString (utf16 ''0''))) fault rows)
       = Some \<lparr>status = 400, body = ErrorBody ''Invalid limit. Must be between 1 and 100.''\<rparr>"
    "sent_response (logs_handler None (Some (QString (utf16 ''101''))) fault rows)
       = Some \<lparr>status = 400, body = ErrorBody ''Invalid limit. Must be between 1 and 100.''\<rparr>"
    "sent_response (logs_handler None (Some (QString (utf16 ''abc''))) fault rows)
       = Some \<lparr>status = 400, body = ErrorBody ''Invalid limit. Must be between 1 and 100.''\<rparr>"
    by (simp_all add: logs_handler_page_error logs_handler_limit_error page_arg_def
        limit_arg_def parseInt_eval isNaN_def)
  have valid: "spec_page_valid page \<and> spec_limit_valid limit
      \<longrightarrow> (\<exists>r. sent_response (logs_handler page limit fault rows) = Some r \<and> status r \<noteq> 400)"
    using spec_valid_accepted[of page limit fault rows] by blast
  show ?thesis
    by (intro conjI logs_handler_page_error logs_handler_limit_error logs_handler_400
        logs_handler_no_response valid instances logs_handler_throws_toString)
qed

theorem logs_validation_witness:
  "spec_page_valid (Some (QString (utf16 ''2''))) \<and> spec_limit_valid (Some (QString (utf16 ''3'')))
   \<and> (\<exists>r. sent_response (logs_handler (Some (QString (utf16 ''2''))) (Some (QString (utf16 ''3'')))
             None []) = Some r \<and> status r \<noteq> 400)
   \<and> parseInt (utf16 ''2'') = Finite 2"
  using logs_validation[of "Some (QString (utf16 ''2''))" "Some (QString (utf16 ''3''))" None "[]"]
  by (simp add: spec_page_valid_def spec_limit_valid_def page_arg_def limit_arg_def
      decimal_integer_eval parseInt_eval)

text \<open>
  C1 as the specification states it fails twice. The page \<^verbatim>\<open>1.5\<close> is not an integer,
  and the handler reads it as page 1 and answers 200. With page 0 and limit 0 the limit
  is not an integer from 1 to 100, and the answer carries the page message, not the
  limit message.
\<close>

theorem logs_validation_counterexample:
  "\<not> spec_page_valid (Some (QString (utf16 ''1.5'')))
   \<and> logs_handler (Some (QString (utf16 ''1.5''))) None None []
       = Inr (\<lparr>status = 200, body = LogsBody (Finite 0) (Finite 1) (Finite 0) []\<rparr>, [])
   \<and> \<not> spec_limit_valid (Some (QString (utf16 ''0'')))
   \<and> logs_handler (Some (QString (utf16 ''0''))) (Some (QString (utf16 ''0''))) None []
       = Inr (\<lparr>status = 400,
                body = ErrorBody ''Invalid page number. Must be a positive integer.''\<rparr>, [])"
  by (simp add: spec_page_valid_def spec_limit_valid_def page_arg_def limit_arg_def
      decimal_integer_eval parseInt_eval logs_handler_def Let_def isNaN_def
      Visit_findAndCountAll_def bigint_clause_def to_number_exact order_desc_def
      quotient_to_zero)

section \<open>GET /api/logs: the page\<close>

lemma order_desc_sorted: "sorted_wrt (\<lambda>a b. visited_at b \<le> visited_at a) (order_desc rows)"
proof -
  have "sorted (map (\<lambda>v. - visited_at v) (order_desc rows))"
    unfolding order_desc_def by (rule sorted_sort_key)
  then show ?thesis
    by (simp add: sorted_wrt_map)
qed

lemma order_desc_mset: "mset (order_desc rows) = mset rows"
  by (simp add: order_desc_def)

lemma order_desc_length: "length (order_desc rows) = length rows"
  by (simp add: order_desc_def)

lemma total_pages_least:
  assumes "1 \<le> (l::int)"
  shows "(\<lceil>real n / real_of_int l\<rceil> - 1) * l < int n \<and> int n \<le> \<lceil>real n / real_of_int l\<rceil> * l"
proof -
  let ?x = "real n / real_of_int l"
  from assms have l: "0 < real_of_int l" by simp
  then have n: "real n = ?x * real_of_int l" by simp
  have "real_of_int \<lceil>?x\<rceil> - 1 < ?x" by linarith
  with l have "(real_of_int \<lceil>?x\<rceil> - 1) * real_of_int l < ?x * real_of_int l"
    by (rule mult_strict_right_mono[rotated])
  with n have "real_of_int ((\<lceil>?x\<rceil> - 1) * l) < real_of_int (int n)" by simp
  then have lo: "(\<lceil>?x\<rceil> - 1) * l < int n"
    by (simp only: of_int_less_iff)
  have up: "?x \<le> real_of_int \<lceil>?x\<rceil>" by linarith
  from l have "0 \<le> real_of_int l" by simp
  with up have "?x * real_of_int l \<le> real_of_int \<lceil>?x\<rceil> * real_of_int l"
    by (rule mult_right_mono)
  with n have "real_of_int (int n) \<le> real_of_int (\<lceil>?x\<rceil> * l)" by simp
  then have hi: "int n \<le> \<lceil>?x\<rceil> * l"
    by (simp only: of_int_le_iff)
  from lo hi show ?thesis ..
qed

text \<open>
  The query of a page, for a table of fewer than \<open>2 ^ 53\<close> rows: an offset up to
  \<open>2 ^ 53\<close> is a double, and a larger one below \<open>2 ^ 60\<close> is read as a double of at least
  \<open>2 ^ 53\<close>, beyond the last row like the offset itself.
\<close>

lemma findAndCountAll_page:
  assumes "0 \<le> off" and "off < 2 ^ 60" and "1 \<le> l" and "l \<le> 100"
    and "length rows < 2 ^ 53"
  shows "Visit_findAndCountAll None rows (to_number off) (Finite l)
           = Inr (Finite (int (length rows)), take (nat l) (drop (nat off) (order_desc rows)))"
proof -
  have "int (length rows) < int (2 ^ 53)"
    using assms(5) by (simp only: of_nat_less_iff)
  then have len: "int (length rows) < 2 ^ 53"
    by simp
  then have cnt: "to_number (int (length rows)) = Finite (int (length rows))"
    by (intro to_number_exact) simp
  have lim: "bigint_clause ''LIMIT'' (Finite l) = Inr (nat l)"
    using assms(3,4) by (simp add: bigint_clause_def)
  show ?thesis
  proof (cases "off \<le> 2 ^ 53")
    case True
    with assms(1) have "to_number off = Finite off"
      by (intro to_number_exact) simp
    moreover from True assms(1) have "bigint_clause ''OFFSET'' (Finite off) = Inr (nat off)"
      by (simp add: bigint_clause_def)
    ultimately show ?thesis
      by (simp add: Visit_findAndCountAll_def lim cnt)
  next
    case False
    then have big: "2 ^ 53 \<le> off"
      by simp
    from to_number_bounded[OF big assms(2)] obtain m where
      m: "to_number off = Finite m" "2 ^ 53 \<le> m" "m < 2 ^ 63"
      by blast
    have "(0::int) \<le> 2 ^ 53"
      by simp
    with m(2) have m0: "0 \<le> m"
      by linarith
    with m(3) have clause: "bigint_clause ''OFFSET'' (Finite m) = Inr (nat m)"
      by (simp add: bigint_clause_def)
    from len m(2) have "int (length rows) \<le> m"
      by linarith
    then have "length (order_desc rows) \<le> nat m"
      by (simp add: order_desc_length le_nat_iff)
    then have beyond: "drop (nat m) (order_desc rows) = []"
      by simp
    from len big have "int (length rows) \<le> off"
      by linarith
    then have "length (order_desc rows) \<le> nat off"
      by (simp add: order_desc_length le_nat_iff)
    then have "drop (nat off) (order_desc rows) = []"
      by simp
    with beyond show ?thesis
      by (simp add: Visit_findAndCountAll_def m(1) clause lim cnt)
  qed
qed

text \<open>The same for every page and limit that \<^verbatim>\<open>parseInt\<close> reads in these ranges.\<close>

lemma logs_handler_page:
  assumes "page_arg page = Inr ps" and "parseInt ps = Finite p" and "1 \<le> p" and "p \<le> 2 ^ 53"
    and "limit_arg limit = Inr ls" and "parseInt ls = Finite l" and "1 \<le> l" and "l \<le> 100"
    and "length rows < 2 ^ 53"
  shows "logs_handler page limit None rows =
           Inr (\<lparr>status = 200,
                 body = LogsBody (Finite (int (length rows))) (Finite p)
                          (Finite \<lceil>real (length rows) / real_of_int l\<rceil>)
                          (take (nat l) (drop (nat ((p - 1) * l)) (order_desc rows)))\<rparr>, [])"
proof -
  from assms(3,4) have sub: "number_sub (Finite p) (Finite 1) = Finite (p - 1)"
    by (simp add: to_number_exact)
  have mul: "number_mul (Finite (p - 1)) (Finite l) = to_number ((p - 1) * l)"
    by simp
  from assms(3,7) have off0: "0 \<le> (p - 1) * l"
    by simp
  from assms(3,4,7,8) have "(p - 1) * l \<le> 2 ^ 53 * 100"
    by (intro mult_mono) simp_all
  then have off60: "(p - 1) * l < 2 ^ 60"
    by simp
  note query = findAndCountAll_page[OF off0 off60 assms(7,8,9)]
  have "int (length rows) < int (2 ^ 53)"
    using assms(9) by (simp only: of_nat_less_iff)
  then have "int (length rows) < 2 ^ 53"
    by simp
  then have pages: "Math_ceil_div (Finite (int (length rows))) (Finite l)
      = Finite \<lceil>real_of_int (int (length rows)) / real_of_int l\<rceil>"
    using assms(7) by (intro Math_ceil_div_exact) simp_all
  have guards: "\<not> isNaN (Finite p)" "\<not> number_less (Finite p) (Finite 1)"
    "\<not> isNaN (Finite l)" "\<not> number_less (Finite l) (Finite 1)"
    "\<not> number_less (Finite 100) (Finite l)"
    using assms(3,7,8) by (simp_all add: isNaN_def)
  show ?thesis
    unfolding logs_handler_def Let_def assms(1,5)
    by (simp only: sum.case assms(2,6) guards if_False simp_thms sub mul query prod.case pages
        of_int_of_nat_eq)
qed

text \<open>
  C2, as the code has it. With a page \<open>p\<close> that is a decimal integer from 1 to
  \<open>2 ^ 53\<close> and a limit \<open>l\<close> that is a decimal integer from 1 to 100, a table of fewer
  than \<open>2 ^ 53\<close> rows and a store that answers, the response is 200 with \<^verbatim>\<open>totalRecords\<close>
  the number of rows, \<^verbatim>\<open>currentPage = p\<close>, \<^verbatim>\<open>totalPages\<close> the ceiling of
  \<^verbatim>\<open>totalRecords / l\<close> (the least number of pages of \<open>l\<close> rows that hold them all), and
  \<^verbatim>\<open>logs\<close> at most \<open>l\<close> rows: the rows from \<open>(p - 1) * l\<close> up to \<open>p * l\<close> of the table
  ordered by \<^verbatim>\<open>visited_at\<close>, latest first.
\<close>

theorem logs_page:
  assumes "page_arg page = Inr ps" and "decimal_integer ps = Some p"
    and "1 \<le> p" and "p \<le> 2 ^ 53"
    and "limit_arg limit = Inr ls" and "decimal_integer ls = Some l"
    and "1 \<le> l" and "l \<le> 100"
    and "length rows < 2 ^ 53"
  shows "logs_handler page limit None rows =
           Inr (\<lparr>status = 200,
                 body = LogsBody (Finite (int (length rows))) (Finite p)
                          (Finite \<lceil>real (length rows) / real_of_int l\<rceil>)
                          (take (nat l) (drop (nat ((p - 1) * l)) (order_desc rows)))\<rparr>, [])
         \<and> (\<lceil>real (length rows) / real_of_int l\<rceil> - 1) * l < int (length rows)
         \<and> int (length rows) \<le> \<lceil>real (length rows) / real_of_int l\<rceil> * l
         \<and> length (take (nat l) (drop (nat ((p - 1) * l)) (order_desc rows))) \<le> nat l
         \<and> length (take (nat l) (drop (nat ((p - 1) * l)) (order_desc rows)))
             = min (nat l) (length rows - nat ((p - 1) * l))
         \<and> (\<forall>i < length (take (nat l) (drop (nat ((p - 1) * l)) (order_desc rows))).
               take (nat l) (drop (nat ((p - 1) * l)) (order_desc rows)) ! i
                 = order_desc rows ! (nat ((p - 1) * l) + i))
         \<and> sorted_wrt (\<lambda>a b. visited_at b \<le> visited_at a) (order_desc rows)
         \<and> mset (order_desc rows) = mset rows"
proof -
  from assms(3,4) have "to_number p = Finite p"
    by (intro to_number_exact) simp
  then have p: "parseInt ps = Finite p"
    by (simp add: parseInt_decimal_integer[OF assms(2)])
  from assms(7,8) have "to_number l = Finite l"
    by (intro to_number_exact) simp
  then have l: "parseInt ls = Finite l"
    by (simp add: parseInt_decimal_integer[OF assms(6)])
  note resp = logs_handler_page[OF assms(1) p assms(3,4,5) l assms(7,8,9)]
  have nth: "\<forall>i < length (take (nat l) (drop (nat ((p - 1) * l)) (order_desc rows))).
               take (nat l) (drop (nat ((p - 1) * l)) (order_desc rows)) ! i
                 = order_desc rows ! (nat ((p - 1) * l) + i)"
  proof (intro allI impI)
    fix i
    assume "i < length (take (nat l) (drop (nat ((p - 1) * l)) (order_desc rows)))"
    then have i: "i < nat l" and le: "nat ((p - 1) * l) \<le> length (order_desc rows)"
      by (auto simp add: order_desc_length)
    from i le show "take (nat l) (drop (nat ((p - 1) * l)) (order_desc rows)) ! i
                 = order_desc rows ! (nat ((p - 1) * l) + i)"
      by simp
  qed
  have length: "length (take (nat l) (drop (nat ((p - 1) * l)) (order_desc rows)))
             = min (nat l) (length rows - nat ((p - 1) * l))"
    by (simp add: order_desc_length min.commute)
  have short: "length (take (nat l) (drop (nat ((p - 1) * l)) (order_desc rows))) \<le> nat l"
    by simp
  note pages = total_pages_least[OF assms(7), of "length rows"]
  show ?thesis
    by (intro conjI resp pages[THEN conjunct1] pages[THEN conjunct2] short length nth
        order_desc_sorted order_desc_mset)
qed

theorem logs_page_witness:
  "page_arg (Some (QString (utf16 ''2''))) = Inr (utf16 ''2'')
   \<and> decimal_integer (utf16 ''2'') = Some 2
   \<and> limit_arg (Some (QString (utf16 ''3''))) = Inr (utf16 ''3'')
   \<and> decimal_integer (utf16 ''3'') = Some 3
   \<and> logs_handler (Some (QString (utf16 ''2''))) (Some (QString (utf16 ''3''))) None
        [sample_visit ''a'' 10, sample_visit ''b'' 40, sample_visit ''c'' 20,
         sample_visit ''d'' 30]
      = Inr (\<lparr>status = 200,
              body = LogsBody (Finite 4) (Finite 2) (Finite 2) [sample_visit ''a'' 10]\<rparr>, [])"
proof -
  let ?rows = "[sample_visit ''a'' 10, sample_visit ''b'' 40, sample_visit ''c'' 20,
      sample_visit ''d'' 30]"
  have p: "page_arg (Some (QString (utf16 ''2''))) = Inr (utf16 ''2'')"
    by (simp add: page_arg_def)
  have l: "limit_arg (Some (QString (utf16 ''3''))) = Inr (utf16 ''3'')"
    by (simp add: limit_arg_def)
  have sorted: "order_desc ?rows
      = [sample_visit ''b'' 40, sample_visit ''d'' 30, sample_visit ''c'' 20,
         sample_visit ''a'' 10]"
    by (simp add: order_desc_def sample_visit_def)
  have slice: "take (nat 3) (drop (nat ((2 - 1) * 3)) (order_desc ?rows))
      = [sample_visit ''a'' 10]"
    by (simp add: sorted)
  have len4: "length ?rows = 4"
    by simp
  have ceil: "\<lceil>real 4 / real_of_int 3\<rceil> = (2::int)"
    by (simp add: ceiling_eq_iff)
  have "logs_handler (Some (QString (utf16 ''2''))) (Some (QString (utf16 ''3''))) None ?rows
      = Inr (\<lparr>status = 200,
              body = LogsBody (Finite (int (length ?rows))) (Finite 2)
                       (Finite \<lceil>real (length ?rows) / real_of_int 3\<rceil>)
                       (take (nat 3) (drop (nat ((2 - 1) * 3)) (order_desc ?rows)))\<rparr>, [])"
    by (rule logs_page[OF p decimal_integer_eval(4) _ _ l decimal_integer_eval(5),
          THEN conjunct1]) simp_all
  then show ?thesis
    unfolding len4 slice ceil using p l by (simp add: decimal_integer_eval)
qed

text \<open>
  C2 as the specification states it fails at a page beyond \<open>2 ^ 53\<close>: the page
  9007199254740993 is an integer of at least 1, \<^verbatim>\<open>parseInt\<close> reads it as the double
  9007199254740992, and that is the \<^verbatim>\<open>currentPage\<close> of the response.
\<close>

lemma parseInt_beyond_2_53: "parseInt (utf16 ''9007199254740993'') = Finite 9007199254740992"
proof -
  have "floorlog 2 (9007199254740993::nat) \<le> 54"
    by (intro floorlog_leI) simp_all
  moreover have "Suc 53 \<le> floorlog 2 (9007199254740993::nat)"
    by (intro floorlog_ge_SucI) simp_all
  ultimately have bits: "floorlog 2 (9007199254740993::nat) = 54"
    by simp
  have r: "round_to 53 9007199254740993 = 9007199254740992"
    by (simp add: round_to_def Let_def bits)
  have "(9007199254740992::nat) \<le> 2 ^ 53"
    by simp
  then have "(9007199254740992::nat) < 2 ^ 1024"
    by (rule below_overflow) simp
  then have "round_to 53 (nat \<bar>9007199254740993\<bar>) < 2 ^ 1024"
    by (simp only: r abs_numeral nat_numeral)
  from to_number_finite[OF this] have "to_number 9007199254740993 = Finite 9007199254740992"
    by (simp add: r)
  moreover have "parseInt (utf16 ''9007199254740993'') = to_number 9007199254740993"
    by (rule parseInt_decimal_integer) (rule decimal_integer_eval)
  ultimately show ?thesis
    by simp
qed

theorem logs_page_counterexample:
  "page_arg (Some (QString (utf16 ''9007199254740993''))) = Inr (utf16 ''9007199254740993'')
   \<and> decimal_integer (utf16 ''9007199254740993'') = Some 9007199254740993
   \<and> logs_handler (Some (QString (utf16 ''9007199254740993''))) None None []
       = Inr (\<lparr>status = 200,
               body = LogsBody (Finite 0) (Finite 9007199254740992) (Finite 0) []\<rparr>, [])
   \<and> Finite 9007199254740992 \<noteq> Finite 9007199254740993"
proof -
  have p: "page_arg (Some (QString (utf16 ''9007199254740993'')))
      = Inr (utf16 ''9007199254740993'')"
    by (simp add: page_arg_def)
  have l: "limit_arg None = Inr (utf16 ''10'')"
    by (simp add: limit_arg_def)
  have "logs_handler (Some (QString (utf16 ''9007199254740993''))) None None []
      = Inr (\<lparr>status = 200,
              body = LogsBody (Finite (int (length ([] :: visit list)))) (Finite 9007199254740992)
                       (Finite \<lceil>real (length ([] :: visit list)) / real_of_int 10\<rceil>)
                       (take (nat 10) (drop (nat ((9007199254740992 - 1) * 10))
                          (order_desc [])))\<rparr>, [])"
    by (rule logs_handler_page[OF p parseInt_beyond_2_53 _ _ l parseInt_eval(6)]) simp_all
  then show ?thesis
    using p by (simp add: decimal_integer_eval order_desc_def)
qed

text \<open>
  Beyond the range of \<^verbatim>\<open>bigint\<close> the store refuses the offset: for a page of \<open>2 ^ 64\<close> or
  more, an integer of at least 1, the answer is 500, whatever the table holds.
\<close>

lemma offset_out_of_range:
  assumes "2 ^ 63 \<le> m" and "1 \<le> l"
  shows "\<exists>e. bigint_clause ''OFFSET'' (number_mul (to_number m) (Finite l)) = Inl e"
proof -
  from to_number_large[OF assms(1)] consider "to_number m = Infinity"
    | m1 where "to_number m = Finite m1" "2 ^ 63 \<le> m1"
    by auto
  then show ?thesis
  proof cases
    case 1
    with assms(2) show ?thesis
      by (simp add: bigint_clause_def)
  next
    case 2
    have "(0::int) \<le> 2 ^ 63"
      by simp
    with 2(2) have "0 \<le> m1"
      by linarith
    with assms(2) have "m1 * 1 \<le> m1 * l"
      by (intro mult_left_mono)
    then have "m1 \<le> m1 * l"
      by (simp only: mult_1_right)
    with 2(2) have "2 ^ 63 \<le> m1 * l"
      by (rule order_trans)
    from to_number_large[OF this] consider "to_number (m1 * l) = Infinity"
      | m2 where "to_number (m1 * l) = Finite m2" "2 ^ 63 \<le> m2"
      by auto
    then show ?thesis
    proof cases
      case 1
      with 2(1) show ?thesis
        by (simp add: bigint_clause_def)
    next
      case inner: 2
      have "(0::int) \<le> 2 ^ 63"
        by simp
      with inner(2) have "0 \<le> m2"
        by linarith
      with inner 2(1) show ?thesis
        by (simp add: bigint_clause_def)
    qed
  qed
qed

lemma logs_page_out_of_range:
  assumes "page_arg page = Inr ps" and "decimal_integer ps = Some p" and "2 ^ 64 \<le> p"
    and "limit_arg limit = Inr ls" and "decimal_integer ls = Some l"
    and "1 \<le> l" and "l \<le> 100"
  shows "sent_response (logs_handler page limit fault rows)
     = Some \<lparr>status = 500, body = ErrorBody ''Internal Server Error''\<rparr>"
proof -
  from assms(6,7) have "to_number l = Finite l"
    by (intro to_number_exact) simp
  then have l: "parseInt ls = Finite l"
    by (simp add: parseInt_decimal_integer[OF assms(5)])
  have limit_ok: "\<not> isNaN (Finite l)" "\<not> number_less (Finite l) (Finite 1)"
    "\<not> number_less (Finite 100) (Finite l)"
    using assms(6,7) by (simp_all add: isNaN_def)
  have p: "parseInt ps = to_number p"
    by (rule parseInt_decimal_integer) (rule assms(2))
  have "(1::int) \<le> 2 ^ 64"
    by simp
  with assms(3) have "1 \<le> p"
    by linarith
  note page_ok = to_number_positive[OF this]
  have refused: "\<exists>e. bigint_clause ''OFFSET''
      (number_mul (number_sub (to_number p) (Finite 1)) (Finite l)) = Inl e"
  proof -
    from to_number_large[OF assms(3)] consider "to_number p = Infinity"
      | m where "to_number p = Finite m" "2 ^ 64 \<le> m"
      by auto
    then show ?thesis
    proof cases
      case 1
      with assms(6) show ?thesis
        by (simp add: bigint_clause_def)
    next
      case 2
      have "(2::int) ^ 64 = 2 ^ 63 + 2 ^ 63" "(1::int) \<le> 2 ^ 63"
        by simp_all
      with 2(2) have "2 ^ 63 \<le> m - 1"
        by linarith
      from offset_out_of_range[OF this assms(6)] show ?thesis
        by (simp add: 2(1))
    qed
  qed
  then obtain e where e: "bigint_clause ''OFFSET''
      (number_mul (number_sub (to_number p) (Finite 1)) (Finite l)) = Inl e"
    by blast
  have "Visit_findAndCountAll fault rows
      (number_mul (number_sub (to_number p) (Finite 1)) (Finite l)) (Finite l)
      = Inl (case fault of Some e' \<Rightarrow> e' | None \<Rightarrow> e)"
    by (simp add: Visit_findAndCountAll_def e split: option.splits)
  then show ?thesis
    unfolding logs_handler_def Let_def assms(1,4) sent_response_def
    by (simp only: sum.case p l page_ok limit_ok if_False simp_thms prod.case)
qed

section \<open>GET /api/client-info\<close>

lemma remote_request_eval:
  "client_ip remote_request = ''203.0.113.7''"
  "or_string (hdr_user_agent remote_request) ''Unknown'' = ''curl/8.0''"
  by (simp_all add: remote_request_def client_ip_def or_string_def Let_def)

lemma client_info_res:
  "res (client_info nts axios_get fault now rows req) =
     \<lparr>status = 200,
      body = ClientInfoBody (client_ip req) (or_string (hdr_user_agent req) ''Unknown'')
               (fst (geolocation_client axios_get (client_ip req)))\<rparr>"
  by (simp add: client_info_def Let_def split: prod.splits sum.splits)

lemma client_info_requests:
  "requests (client_info nts axios_get fault now rows req) =
     snd (snd (geolocation_client axios_get (client_ip req)))"
  by (simp add: client_info_def Let_def split: prod.splits sum.splits)

lemma client_info_table:
  "table (client_info nts axios_get fault now rows req) =
     (case store_visit nts fault now rows (client_ip req)
             (or_string (hdr_user_agent req) ''Unknown'')
             (fst (geolocation_client axios_get (client_ip req))) of
        Inr rows' \<Rightarrow> rows' | Inl error \<Rightarrow> rows)"
  by (simp add: client_info_def Let_def split: prod.splits sum.splits)

lemma client_info_console:
  "console (client_info nts axios_get fault now rows req) =
     fst (snd (geolocation_client axios_get (client_ip req))) @
     (case store_visit nts fault now rows (client_ip req)
             (or_string (hdr_user_agent req) ''Unknown'')
             (fst (geolocation_client axios_get (client_ip req))) of
        Inr rows' \<Rightarrow> [] | Inl error \<Rightarrow> [ConsoleError ''Database error:'' (message error)])"
  by (simp add: client_info_def Let_def split: prod.splits sum.splits)

lemma store_visit_fault: "\<exists>error. store_visit nts (Some e) now rows a u l = Inl error"
  by (simp add: store_visit_def Visit_create_def Let_def split: sum.splits)

text \<open>When the call reaches the store, the error is the store's.\<close>

lemma store_visit_reached:
  assumes "toString nts (loc_latitude l) = Inr la" and "toString nts (loc_longitude l) = Inr lo"
    and "string_violations
           [(''city'', loc_city l), (''region'', loc_region l), (''country'', loc_country l)] = []"
  shows "store_visit nts (Some e) now rows a u l = Inl e"
  using assms by (simp add: store_visit_def Visit_create_def Let_def)

text \<open>
  C3. When \<^verbatim>\<open>Visit.create\<close> fails, the response is the one of the run where it works:
  200 with \<^verbatim>\<open>{ip, userAgent, locationData}\<close>. The failure goes to \<^verbatim>\<open>console.error\<close> as the
  last entry (the message of the store's error, when the call reached the store: the
  two \<^verbatim>\<open>.toString()\<close> calls returned and no value is an array or an object), and the
  table is as it was.
\<close>

theorem persistence_failure_absorbed:
  "res (client_info nts axios_get (Some e) now rows req)
     = res (client_info nts axios_get None now rows req)
   \<and> res (client_info nts axios_get (Some e) now rows req)
     = \<lparr>status = 200,
        body = ClientInfoBody (client_ip req) (or_string (hdr_user_agent req) ''Unknown'')
                 (fst (geolocation_client axios_get (client_ip req)))\<rparr>
   \<and> table (client_info nts axios_get (Some e) now rows req) = rows
   \<and> requests (client_info nts axios_get (Some e) now rows req)
     = requests (client_info nts axios_get None now rows req)
   \<and> (\<exists>m. console (client_info nts axios_get (Some e) now rows req)
          = fst (snd (geolocation_client axios_get (client_ip req)))
            @ [ConsoleError ''Database error:'' m])
   \<and> ((\<exists>la lo.
          toString nts (loc_latitude (fst (geolocation_client axios_get (client_ip req)))) = Inr la
        \<and> toString nts (loc_longitude (fst (geolocation_client axios_get (client_ip req))))
            = Inr lo)
        \<and> string_violations
            [(''city'', loc_city (fst (geolocation_client axios_get (client_ip req)))),
             (''region'', loc_region (fst (geolocation_client axios_get (client_ip req)))),
             (''country'', loc_country (fst (geolocation_client axios_get (client_ip req))))] = []
      \<longrightarrow> console (client_info nts axios_get (Some e) now rows req)
          = fst (snd (geolocation_client axios_get (client_ip req)))
            @ [ConsoleError ''Database error:'' (message e)])"
proof -
  obtain error where
    "store_visit nts (Some e) now rows (client_ip req)
       (or_string (hdr_user_agent req) ''Unknown'')
       (fst (geolocation_client axios_get (client_ip req))) = Inl error"
    using store_visit_fault by blast
  then have absorbed:
    "res (client_info nts axios_get (Some e) now rows req)
       = res (client_info nts axios_get None now rows req)
     \<and> res (client_info nts axios_get (Some e) now rows req)
       = \<lparr>status = 200,
          body = ClientInfoBody (client_ip req) (or_string (hdr_user_agent req) ''Unknown'')
                   (fst (geolocation_client axios_get (client_ip req)))\<rparr>
     \<and> table (client_info nts axios_get (Some e) now rows req) = rows
     \<and> requests (client_info nts axios_get (Some e) now rows req)
       = requests (client_info nts axios_get None now rows req)
     \<and> (\<exists>m. console (client_info nts axios_get (Some e) now rows req)
            = fst (snd (geolocation_client axios_get (client_ip req)))
              @ [ConsoleError ''Database error:'' m])"
    by (simp add: client_info_res client_info_table client_info_console client_info_requests)
  have logged:
    "(\<exists>la lo.
          toString nts (loc_latitude (fst (geolocation_client axios_get (client_ip req)))) = Inr la
        \<and> toString nts (loc_longitude (fst (geolocation_client axios_get (client_ip req))))
            = Inr lo)
        \<and> string_violations
            [(''city'', loc_city (fst (geolocation_client axios_get (client_ip req)))),
             (''region'', loc_region (fst (geolocation_client axios_get (client_ip req)))),
             (''country'', loc_country (fst (geolocation_client axios_get (client_ip req))))] = []
      \<longrightarrow> console (client_info nts axios_get (Some e) now rows req)
          = fst (snd (geolocation_client axios_get (client_ip req)))
            @ [ConsoleError ''Database error:'' (message e)]"
    by (auto simp: client_info_console store_visit_reached)
  from absorbed logged show ?thesis
    by blast
qed

theorem persistence_failure_absorbed_witness:
  "res (client_info (\<lambda>x. ''48.85'') (\<lambda>u. Inr (JObj [(''city'', JStr ''Paris'')]))
          (Some (Error ''connection refused'')) 0 [] remote_request)
     = \<lparr>status = 200,
        body = ClientInfoBody ''203.0.113.7'' ''curl/8.0''
                 \<lparr>loc_city = JStr ''Paris'', loc_region = JStr ''N/A'', loc_country = JStr ''N/A'',
                  loc_latitude = JStr ''N/A'', loc_longitude = JStr ''N/A''\<rparr>\<rparr>
   \<and> table (client_info (\<lambda>x. ''48.85'') (\<lambda>u. Inr (JObj [(''city'', JStr ''Paris'')]))
          (Some (Error ''connection refused'')) 0 [] remote_request) = []"
proof -
  note absorbed = persistence_failure_absorbed[of "\<lambda>x. ''48.85''"
      "\<lambda>u. Inr (JObj [(''city'', JStr ''Paris'')])" "Error ''connection refused''" 0 "[]"
      remote_request]
  from absorbed[THEN conjunct2, THEN conjunct1]
    absorbed[THEN conjunct2, THEN conjunct2, THEN conjunct1]
  show ?thesis
    by (simp add: remote_request_eval geolocation_client_def geolocate_def js_or_def)
qed

section \<open>GET /api/client-info: the lookup\<close>

lemma geolocation_client_sent:
  assumes "ip' \<noteq> ''localhost''" and "ip' \<noteq> ''Unknown''"
  shows "snd (snd (geolocation_client axios_get ip')) = [geolocation_url ip']"
  using assms by (simp add: geolocation_client_def split: sum.splits)

lemma geolocation_client_failed:
  assumes "geolocation_failed (axios_get (geolocation_url ip'))"
  shows "fst (geolocation_client axios_get ip') = default_location"
proof (cases "axios_get (geolocation_url ip')")
  case (Inl e)
  then show ?thesis
    by (simp add: geolocation_client_def geolocate_def)
next
  case (Inr data)
  with assms show ?thesis
    by (cases data)
      (simp_all add: geolocation_client_def geolocate_def geolocation_failed_def
        location_fields_def js_or_def default_location_def)
qed

lemma geolocation_client_object:
  assumes "ip' \<noteq> ''localhost''" and "ip' \<noteq> ''Unknown''"
    and "axios_get (geolocation_url ip') = Inr (JObj kvs)"
  shows "fst (geolocation_client axios_get ip') =
     \<lparr>loc_city = js_or (case map_of kvs ''city'' of Some v \<Rightarrow> v | None \<Rightarrow> Undefined)
                   (JStr ''N/A''),
      loc_region = js_or (case map_of kvs ''region'' of Some v \<Rightarrow> v | None \<Rightarrow> Undefined)
                   (JStr ''N/A''),
      loc_country = js_or (case map_of kvs ''country_name'' of Some v \<Rightarrow> v | None \<Rightarrow> Undefined)
                   (JStr ''N/A''),
      loc_latitude = js_or (case map_of kvs ''latitude'' of Some v \<Rightarrow> v | None \<Rightarrow> Undefined)
                   (JStr ''N/A''),
      loc_longitude = js_or (case map_of kvs ''longitude'' of Some v \<Rightarrow> v | None \<Rightarrow> Undefined)
                   (JStr ''N/A'')\<rparr>"
  using assms by (simp add: geolocation_client_def geolocate_def)

text \<open>
  C4, as the code has it. For an address that is neither \<^verbatim>\<open>localhost\<close> nor \<^verbatim>\<open>Unknown\<close>
  the handler sends one request and answers 200 whatever comes back: every \<^verbatim>\<open>throw\<close> of
  the lookup lies inside its \<^verbatim>\<open>try\<close>, so the handler is a total function. When the call
  fails (it rejects, or the body is no JSON object, or the object has none of the five
  fields) all five fields of \<^verbatim>\<open>locationData\<close> are \<^verbatim>\<open>"N/A"\<close>. When the body is an object,
  each field it lacks is \<^verbatim>\<open>"N/A"\<close>.
\<close>

theorem geolocation_failure_absorbed:
  assumes "client_ip req \<noteq> ''localhost''" and "client_ip req \<noteq> ''Unknown''"
  shows "status (res (client_info nts axios_get fault now rows req)) = 200
     \<and> requests (client_info nts axios_get fault now rows req)
         = [geolocation_url (client_ip req)]
     \<and> (geolocation_failed (axios_get (geolocation_url (client_ip req))) \<longrightarrow>
          res (client_info nts axios_get fault now rows req)
            = \<lparr>status = 200,
               body = ClientInfoBody (client_ip req)
                        (or_string (hdr_user_agent req) ''Unknown'') default_location\<rparr>)
     \<and> (\<forall>kvs. axios_get (geolocation_url (client_ip req)) = Inr (JObj kvs) \<longrightarrow>
          (\<exists>l. response_location (res (client_info nts axios_get fault now rows req)) = Some l
             \<and> (map_of kvs ''city'' = None \<longrightarrow> loc_city l = JStr ''N/A'')
             \<and> (map_of kvs ''region'' = None \<longrightarrow> loc_region l = JStr ''N/A'')
             \<and> (map_of kvs ''country_name'' = None \<longrightarrow> loc_country l = JStr ''N/A'')
             \<and> (map_of kvs ''latitude'' = None \<longrightarrow> loc_latitude l = JStr ''N/A'')
             \<and> (map_of kvs ''longitude'' = None \<longrightarrow> loc_longitude l = JStr ''N/A'')))"
proof (intro conjI impI allI)
  show "status (res (client_info nts axios_get fault now rows req)) = 200"
    by (simp add: client_info_res)
  show "requests (client_info nts axios_get fault now rows req)
         = [geolocation_url (client_ip req)]"
    using assms by (simp add: client_info_requests geolocation_client_sent)
next
  assume "geolocation_failed (axios_get (geolocation_url (client_ip req)))"
  then show "res (client_info nts axios_get fault now rows req)
            = \<lparr>status = 200,
               body = ClientInfoBody (client_ip req)
                        (or_string (hdr_user_agent req) ''Unknown'') default_location\<rparr>"
    by (simp add: client_info_res geolocation_client_failed)
next
  fix kvs
  assume "axios_get (geolocation_url (client_ip req)) = Inr (JObj kvs)"
  from geolocation_client_object[of "client_ip req" axios_get kvs, OF assms this]
  show "\<exists>l. response_location (res (client_info nts axios_get fault now rows req)) = Some l
             \<and> (map_of kvs ''city'' = None \<longrightarrow> loc_city l = JStr ''N/A'')
             \<and> (map_of kvs ''region'' = None \<longrightarrow> loc_region l = JStr ''N/A'')
             \<and> (map_of kvs ''country_name'' = None \<longrightarrow> loc_country l = JStr ''N/A'')
             \<and> (map_of kvs ''latitude'' = None \<longrightarrow> loc_latitude l = JStr ''N/A'')
             \<and> (map_of kvs ''longitude'' = None \<longrightarrow> loc_longitude l = JStr ''N/A'')"
    by (simp add: client_info_res response_location_def js_or_def)
qed

theorem geolocation_failure_absorbed_witness:
  "client_ip remote_request \<noteq> ''localhost'' \<and> client_ip remote_request \<noteq> ''Unknown''
   \<and> geolocation_failed (Inl (Error ''timeout of 3000ms exceeded'') :: js_error + jsval)
   \<and> res (client_info (\<lambda>x. ''48.85'') (\<lambda>u. Inl (Error ''timeout of 3000ms exceeded'')) None 0 []
        remote_request)
       = \<lparr>status = 200, body = ClientInfoBody ''203.0.113.7'' ''curl/8.0'' default_location\<rparr>
   \<and> requests (client_info (\<lambda>x. ''48.85'') (\<lambda>u. Inl (Error ''timeout of 3000ms exceeded''))
        None 0 [] remote_request) = [''https://ipapi.co/203.0.113.7/json/'']"
proof -
  have a: "client_ip remote_request \<noteq> ''localhost''" and b: "client_ip remote_request \<noteq> ''Unknown''"
    by (simp_all add: remote_request_eval)
  have f: "geolocation_failed (Inl (Error ''timeout of 3000ms exceeded'') :: js_error + jsval)"
    by (simp add: geolocation_failed_def)
  note absorbed = geolocation_failure_absorbed[OF a b, of "\<lambda>x. ''48.85''"
      "\<lambda>u. Inl (Error ''timeout of 3000ms exceeded'')" None 0 "[]"]
  from absorbed[THEN conjunct2, THEN conjunct1]
    absorbed[THEN conjunct2, THEN conjunct2, THEN conjunct1] a b f
  show ?thesis
    by (simp add: remote_request_eval geolocation_url_def)
qed

text \<open>
  C4 as the specification states it fails where the answer lacks some of the fields
  only: an object with a city and nothing else has four fields missing, and the city of
  the response is the provider's, not \<^verbatim>\<open>"N/A"\<close>.
\<close>

theorem geolocation_failure_counterexample:
  "map_of [(''city'', JStr ''Paris'')] ''latitude'' = None
   \<and> map_of [(''city'', JStr ''Paris'')] ''longitude'' = None
   \<and> map_of [(''city'', JStr ''Paris'')] ''region'' = None
   \<and> map_of [(''city'', JStr ''Paris'')] ''country_name'' = None
   \<and> res (client_info (\<lambda>x. ''48.85'') (\<lambda>u. Inr (JObj [(''city'', JStr ''Paris'')])) None 0 []
        remote_request)
       = \<lparr>status = 200,
          body = ClientInfoBody ''203.0.113.7'' ''curl/8.0''
                   \<lparr>loc_city = JStr ''Paris'', loc_region = JStr ''N/A'',
                    loc_country = JStr ''N/A'', loc_latitude = JStr ''N/A'',
                    loc_longitude = JStr ''N/A''\<rparr>\<rparr>
   \<and> JStr ''Paris'' \<noteq> JStr ''N/A''"
  by (simp add: client_info_res remote_request_eval geolocation_client_def geolocate_def
      js_or_def)

section \<open>GET /api/client-info: the local machine\<close>

lemma mapped_loopback_request_eval:
  "client_ip mapped_loopback_request = ''::ffff:127.0.0.1''"
  "or_string (hdr_user_agent mapped_loopback_request) ''Unknown'' = ''curl/8.0''"
  by (simp_all add: mapped_loopback_request_def client_ip_def or_string_def Let_def)

text \<open>
  What the handler does for the two spellings it tests: the address \<^verbatim>\<open>::1\<close> or
  \<^verbatim>\<open>127.0.0.1\<close> becomes \<^verbatim>\<open>localhost\<close>, no request is sent and every field is \<^verbatim>\<open>"N/A"\<close>.
\<close>

lemma loopback_literal_localhost:
  assumes "or_string (hdr_x_forwarded_for req) (or_string (remoteAddress req) ''Unknown'') = ''::1''
           \<or> or_string (hdr_x_forwarded_for req) (or_string (remoteAddress req) ''Unknown'')
               = ''127.0.0.1''"
  shows "res (client_info nts axios_get fault now rows req)
           = \<lparr>status = 200,
              body = ClientInfoBody ''localhost'' (or_string (hdr_user_agent req) ''Unknown'')
                       default_location\<rparr>
         \<and> requests (client_info nts axios_get fault now rows req) = []"
proof -
  from assms have "client_ip req = ''localhost''"
    by (auto simp: client_ip_def Let_def)
  then show ?thesis
    by (simp add: client_info_res client_info_requests geolocation_client_def)
qed

text \<open>
  C5 at a request from the local machine over IPv4 to a dual-stack listener, where the
  socket reports the IPv4-mapped loopback address \<^verbatim>\<open>::ffff:127.0.0.1\<close>: the handler
  tests two spellings only, so the address is returned as it is, the request to the
  provider is sent, and \<^verbatim>\<open>locationData\<close> is what the lookup gives.
\<close>

theorem mapped_loopback_not_normalised:
  "res (client_info nts axios_get fault now rows mapped_loopback_request)
     = \<lparr>status = 200,
        body = ClientInfoBody ''::ffff:127.0.0.1'' ''curl/8.0''
                 (fst (geolocation_client axios_get ''::ffff:127.0.0.1''))\<rparr>
   \<and> requests (client_info nts axios_get fault now rows mapped_loopback_request)
     = [''https://ipapi.co/::ffff:127.0.0.1/json/'']"
  by (simp add: client_info_res client_info_requests mapped_loopback_request_eval
      geolocation_client_sent geolocation_url_def)

theorem mapped_loopback_not_normalised_witness:
  "res (client_info (\<lambda>x. ''48.85'') (\<lambda>u. Inr (JObj [(''city'', JStr ''Paris'')])) None 0 []
      mapped_loopback_request)
     = \<lparr>status = 200,
        body = ClientInfoBody ''::ffff:127.0.0.1'' ''curl/8.0''
                 \<lparr>loc_city = JStr ''Paris'', loc_region = JStr ''N/A'',
                  loc_country = JStr ''N/A'', loc_latitude = JStr ''N/A'',
                  loc_longitude = JStr ''N/A''\<rparr>\<rparr>
   \<and> requests (client_info (\<lambda>x. ''48.85'') (\<lambda>u. Inr (JObj [(''city'', JStr ''Paris'')])) None 0 []
      mapped_loopback_request) = [''https://ipapi.co/::ffff:127.0.0.1/json/'']"
  using mapped_loopback_not_normalised[of "\<lambda>x. ''48.85''"
      "\<lambda>u. Inr (JObj [(''city'', JStr ''Paris'')])" None 0 "[]"]
  by (simp add: geolocation_client_def geolocate_def js_or_def)

section \<open>GET /api/client-info: the row\<close>

text \<open>
  When the table has changed, one row was added: the two \<^verbatim>\<open>.toString()\<close> calls
  returned, the validation passed, the store had no fault and the \<^verbatim>\<open>INSERT\<close> took the
  values.
\<close>

lemma stored_row:
  assumes "table (client_info nts axios_get fault now rows req) \<noteq> rows"
  shows "\<exists>la lo v.
           toString nts (loc_latitude (fst (geolocation_client axios_get (client_ip req)))) = Inr la
         \<and> toString nts (loc_longitude (fst (geolocation_client axios_get (client_ip req)))) = Inr lo
         \<and> insert_row now (client_ip req) (or_string (hdr_user_agent req) ''Unknown'')
               (bind_text nts (loc_city (fst (geolocation_client axios_get (client_ip req)))))
               (bind_text nts (loc_region (fst (geolocation_client axios_get (client_ip req)))))
               (bind_text nts (loc_country (fst (geolocation_client axios_get (client_ip req)))))
               la lo = Inr v
         \<and> table (client_info nts axios_get fault now rows req) = rows @ [v]"
  using assms
  by (auto simp: client_info_table store_visit_def Visit_create_def Let_def
      split: sum.splits option.splits if_splits)

lemma insert_row_columns:
  assumes "insert_row now a u c r n la lo = Inr v"
  shows "character_varying_255 a = Inr (ip v)"
    and "text_column u = Inr (user_agent v)"
    and "nullable character_varying_255 c = Inr (city v)"
    and "nullable character_varying_255 r = Inr (region v)"
    and "nullable character_varying_255 n = Inr (country v)"
    and "character_varying_255 la = Inr (latitude v)"
    and "character_varying_255 lo = Inr (longitude v)"
    and "visited_at v = now"
  using assms by (auto simp: insert_row_def split: sum.splits)

text \<open>A column keeps a text of at most 255 characters as it is, and a \<^verbatim>\<open>TEXT\<close> any text.\<close>

lemma character_varying_255_short:
  assumes "character_varying_255 s = Inr t" and "length s \<le> 255"
  shows "t = s"
  using assms by (auto simp: character_varying_255_def text_column_def split: if_splits)

lemma text_column_same:
  assumes "text_column s = Inr t"
  shows "t = s"
  using assms by (auto simp: text_column_def split: if_splits)

lemma nullable_short:
  assumes "nullable character_varying_255 (Some s) = Inr t" and "length s \<le> 255"
  shows "t = Some s"
  using assms character_varying_255_short[of s]
  by (auto simp: nullable_def split: sum.splits)

lemma NA_column:
  "character_varying_255 ''N/A'' = Inr ''N/A''"
  "nullable character_varying_255 (Some ''N/A'') = Inr (Some ''N/A'')"
  by (simp_all add: character_varying_255_def text_column_def nullable_def)

text \<open>
  C9. A field the provider sends with a falsy value (a latitude or longitude of 0, an
  empty city, region or country) is \<^verbatim>\<open>"N/A"\<close> in the response, and in the row when one is
  written.
\<close>

theorem falsy_field_becomes_NA:
  assumes "client_ip req \<noteq> ''localhost''" and "client_ip req \<noteq> ''Unknown''"
    and "axios_get (geolocation_url (client_ip req)) = Inr (JObj kvs)"
  shows "\<exists>l. response_location (res (client_info nts axios_get fault now rows req)) = Some l
     \<and> (present_but_falsy kvs ''city'' \<longrightarrow> loc_city l = JStr ''N/A'')
     \<and> (present_but_falsy kvs ''region'' \<longrightarrow> loc_region l = JStr ''N/A'')
     \<and> (present_but_falsy kvs ''country_name'' \<longrightarrow> loc_country l = JStr ''N/A'')
     \<and> (present_but_falsy kvs ''latitude'' \<longrightarrow> loc_latitude l = JStr ''N/A'')
     \<and> (present_but_falsy kvs ''longitude'' \<longrightarrow> loc_longitude l = JStr ''N/A'')
     \<and> (table (client_info nts axios_get fault now rows req) \<noteq> rows \<longrightarrow>
          (present_but_falsy kvs ''city'' \<longrightarrow>
             city (last (table (client_info nts axios_get fault now rows req))) = Some ''N/A'')
        \<and> (present_but_falsy kvs ''region'' \<longrightarrow>
             region (last (table (client_info nts axios_get fault now rows req))) = Some ''N/A'')
        \<and> (present_but_falsy kvs ''country_name'' \<longrightarrow>
             country (last (table (client_info nts axios_get fault now rows req))) = Some ''N/A'')
        \<and> (present_but_falsy kvs ''latitude'' \<longrightarrow>
             latitude (last (table (client_info nts axios_get fault now rows req))) = ''N/A'')
        \<and> (present_but_falsy kvs ''longitude'' \<longrightarrow>
             longitude (last (table (client_info nts axios_get fault now rows req))) = ''N/A''))"
proof -
  let ?l = "fst (geolocation_client axios_get (client_ip req))"
  let ?T = "table (client_info nts axios_get fault now rows req)"
  note loc = geolocation_client_object[of "client_ip req" axios_get kvs, OF assms]
  have response: "response_location (res (client_info nts axios_get fault now rows req)) = Some ?l"
    by (simp add: client_info_res response_location_def)
  have city: "present_but_falsy kvs ''city'' \<longrightarrow> loc_city ?l = JStr ''N/A''"
    by (auto simp: loc js_or_def present_but_falsy_def split: option.splits)
  have region: "present_but_falsy kvs ''region'' \<longrightarrow> loc_region ?l = JStr ''N/A''"
    by (auto simp: loc js_or_def present_but_falsy_def split: option.splits)
  have country: "present_but_falsy kvs ''country_name'' \<longrightarrow> loc_country ?l = JStr ''N/A''"
    by (auto simp: loc js_or_def present_but_falsy_def split: option.splits)
  have latitude: "present_but_falsy kvs ''latitude'' \<longrightarrow> loc_latitude ?l = JStr ''N/A''"
    by (auto simp: loc js_or_def present_but_falsy_def split: option.splits)
  have longitude: "present_but_falsy kvs ''longitude'' \<longrightarrow> loc_longitude ?l = JStr ''N/A''"
    by (auto simp: loc js_or_def present_but_falsy_def split: option.splits)
  have row: "?T \<noteq> rows \<longrightarrow>
          (present_but_falsy kvs ''city'' \<longrightarrow> city (last ?T) = Some ''N/A'')
        \<and> (present_but_falsy kvs ''region'' \<longrightarrow> region (last ?T) = Some ''N/A'')
        \<and> (present_but_falsy kvs ''country_name'' \<longrightarrow> country (last ?T) = Some ''N/A'')
        \<and> (present_but_falsy kvs ''latitude'' \<longrightarrow> latitude (last ?T) = ''N/A'')
        \<and> (present_but_falsy kvs ''longitude'' \<longrightarrow> longitude (last ?T) = ''N/A'')"
  proof
    assume "?T \<noteq> rows"
    from stored_row[OF this] obtain la lo v where
      la: "toString nts (loc_latitude ?l) = Inr la"
      and lo: "toString nts (loc_longitude ?l) = Inr lo"
      and v: "insert_row now (client_ip req) (or_string (hdr_user_agent req) ''Unknown'')
               (bind_text nts (loc_city ?l)) (bind_text nts (loc_region ?l))
               (bind_text nts (loc_country ?l)) la lo = Inr v"
      and t: "?T = rows @ [v]"
      by blast
    note columns = insert_row_columns[OF v]
    have c: "present_but_falsy kvs ''city'' \<longrightarrow> city v = Some ''N/A''"
      using city columns(3) by (auto simp: NA_column)
    have r: "present_but_falsy kvs ''region'' \<longrightarrow> region v = Some ''N/A''"
      using region columns(4) by (auto simp: NA_column)
    have n: "present_but_falsy kvs ''country_name'' \<longrightarrow> country v = Some ''N/A''"
      using country columns(5) by (auto simp: NA_column)
    have a: "present_but_falsy kvs ''latitude'' \<longrightarrow> latitude v = ''N/A''"
      using latitude la columns(6) by (auto simp: NA_column)
    have o: "present_but_falsy kvs ''longitude'' \<longrightarrow> longitude v = ''N/A''"
      using longitude lo columns(7) by (auto simp: NA_column)
    from c r n a o show "(present_but_falsy kvs ''city'' \<longrightarrow> city (last ?T) = Some ''N/A'')
        \<and> (present_but_falsy kvs ''region'' \<longrightarrow> region (last ?T) = Some ''N/A'')
        \<and> (present_but_falsy kvs ''country_name'' \<longrightarrow> country (last ?T) = Some ''N/A'')
        \<and> (present_but_falsy kvs ''latitude'' \<longrightarrow> latitude (last ?T) = ''N/A'')
        \<and> (present_but_falsy kvs ''longitude'' \<longrightarrow> longitude (last ?T) = ''N/A'')"
      unfolding t by simp
  qed
  from response city region country latitude longitude row show ?thesis
    by blast
qed

theorem falsy_field_becomes_NA_witness:
  "client_ip remote_request \<noteq> ''localhost'' \<and> client_ip remote_request \<noteq> ''Unknown''
   \<and> present_but_falsy
       [(''city'', JStr []), (''latitude'', JNum 0), (''longitude'', JNum 2.35)] ''latitude''
   \<and> present_but_falsy
       [(''city'', JStr []), (''latitude'', JNum 0), (''longitude'', JNum 2.35)] ''city''
   \<and> table (client_info (\<lambda>x. ''2.35'')
        (\<lambda>u. Inr (JObj [(''city'', JStr []), (''latitude'', JNum 0), (''longitude'', JNum 2.35)]))
        None 0 [] remote_request) \<noteq> []
   \<and> latitude (last (table (client_info (\<lambda>x. ''2.35'')
        (\<lambda>u. Inr (JObj [(''city'', JStr []), (''latitude'', JNum 0), (''longitude'', JNum 2.35)]))
        None 0 [] remote_request))) = ''N/A''
   \<and> city (last (table (client_info (\<lambda>x. ''2.35'')
        (\<lambda>u. Inr (JObj [(''city'', JStr []), (''latitude'', JNum 0), (''longitude'', JNum 2.35)]))
        None 0 [] remote_request))) = Some ''N/A''"
proof -
  let ?kvs = "[(''city'', JStr []), (''latitude'', JNum 0), (''longitude'', JNum 2.35)]"
  let ?R = "client_info (\<lambda>x. ''2.35'') (\<lambda>u. Inr (JObj ?kvs)) None 0 [] remote_request"
  have a: "client_ip remote_request \<noteq> ''localhost''" and b: "client_ip remote_request \<noteq> ''Unknown''"
    by (simp_all add: remote_request_eval)
  have lat: "present_but_falsy ?kvs ''latitude''" and cit: "present_but_falsy ?kvs ''city''"
    by (simp_all add: present_but_falsy_def)
  have changed: "table ?R \<noteq> []"
    by (simp add: client_info_table remote_request_eval geolocation_client_def geolocate_def
        js_or_def store_visit_def Visit_create_def string_violations_def insert_row_def
        character_varying_255_def text_column_def nullable_def)
  from falsy_field_becomes_NA[OF a b, of "\<lambda>u. Inr (JObj ?kvs)" ?kvs "\<lambda>x. ''2.35''" None 0 "[]",
      OF refl]
  obtain l :: location where
    "table ?R \<noteq> [] \<longrightarrow>
          (present_but_falsy ?kvs ''city'' \<longrightarrow> city (last (table ?R)) = Some ''N/A'')
        \<and> (present_but_falsy ?kvs ''region'' \<longrightarrow> region (last (table ?R)) = Some ''N/A'')
        \<and> (present_but_falsy ?kvs ''country_name'' \<longrightarrow> country (last (table ?R)) = Some ''N/A'')
        \<and> (present_but_falsy ?kvs ''latitude'' \<longrightarrow> latitude (last (table ?R)) = ''N/A'')
        \<and> (present_but_falsy ?kvs ''longitude'' \<longrightarrow> longitude (last (table ?R)) = ''N/A'')"
    by blast
  with lat cit changed have "latitude (last (table ?R)) = ''N/A''"
    and "city (last (table ?R)) = Some ''N/A''"
    by simp_all
  with a b lat cit changed show ?thesis
    by simp
qed

text \<open>
  C10, as the code has it. When the write succeeds, one row is added, and it carries
  the data of the response body in the texts of the columns: \<^verbatim>\<open>ip\<close> and \<^verbatim>\<open>userAgent\<close>,
  the city, region and country as the bind parameter prints them (a string as it is, a
  number or a boolean as its text), and the latitude and longitude as \<^verbatim>\<open>.toString()\<close>
  prints them, each as a \<^verbatim>\<open>character varying(255)\<close> keeps it. A field of the body that
  is a string of at most 255 characters is stored as it is, and the \<^verbatim>\<open>ip\<close> likewise.
\<close>

theorem stored_row_agrees_with_response:
  assumes "table (client_info nts axios_get fault now rows req) \<noteq> rows"
  shows "\<exists>v a u l. table (client_info nts axios_get fault now rows req) = rows @ [v]
         \<and> res (client_info nts axios_get fault now rows req)
             = \<lparr>status = 200, body = ClientInfoBody a u l\<rparr>
         \<and> character_varying_255 a = Inr (ip v)
         \<and> (length a \<le> 255 \<longrightarrow> ip v = a)
         \<and> user_agent v = u
         \<and> nullable character_varying_255 (bind_text nts (loc_city l)) = Inr (city v)
         \<and> nullable character_varying_255 (bind_text nts (loc_region l)) = Inr (region v)
         \<and> nullable character_varying_255 (bind_text nts (loc_country l)) = Inr (country v)
         \<and> (\<forall>s. loc_city l = JStr s \<and> length s \<le> 255 \<longrightarrow> city v = Some s)
         \<and> (\<forall>s. loc_region l = JStr s \<and> length s \<le> 255 \<longrightarrow> region v = Some s)
         \<and> (\<forall>s. loc_country l = JStr s \<and> length s \<le> 255 \<longrightarrow> country v = Some s)
         \<and> (\<exists>la. toString nts (loc_latitude l) = Inr la
                \<and> character_varying_255 la = Inr (latitude v)
                \<and> (length la \<le> 255 \<longrightarrow> latitude v = la))
         \<and> (\<exists>lo. toString nts (loc_longitude l) = Inr lo
                \<and> character_varying_255 lo = Inr (longitude v)
                \<and> (length lo \<le> 255 \<longrightarrow> longitude v = lo))"
proof -
  let ?l = "fst (geolocation_client axios_get (client_ip req))"
  from stored_row[OF assms] obtain la lo v where
    la: "toString nts (loc_latitude ?l) = Inr la"
    and lo: "toString nts (loc_longitude ?l) = Inr lo"
    and v: "insert_row now (client_ip req) (or_string (hdr_user_agent req) ''Unknown'')
             (bind_text nts (loc_city ?l)) (bind_text nts (loc_region ?l))
             (bind_text nts (loc_country ?l)) la lo = Inr v"
    and t: "table (client_info nts axios_get fault now rows req) = rows @ [v]"
    by blast
  note columns = insert_row_columns[OF v]
  have ip_short: "length (client_ip req) \<le> 255 \<longrightarrow> ip v = client_ip req"
    using character_varying_255_short[OF columns(1)] by simp
  have agent: "user_agent v = or_string (hdr_user_agent req) ''Unknown''"
    by (rule text_column_same[OF columns(2)])
  have city_short: "\<forall>s. loc_city ?l = JStr s \<and> length s \<le> 255 \<longrightarrow> city v = Some s"
    using columns(3) nullable_short by auto
  have region_short: "\<forall>s. loc_region ?l = JStr s \<and> length s \<le> 255 \<longrightarrow> region v = Some s"
    using columns(4) nullable_short by auto
  have country_short: "\<forall>s. loc_country ?l = JStr s \<and> length s \<le> 255 \<longrightarrow> country v = Some s"
    using columns(5) nullable_short by auto
  have lat: "\<exists>la. toString nts (loc_latitude ?l) = Inr la
                \<and> character_varying_255 la = Inr (latitude v)
                \<and> (length la \<le> 255 \<longrightarrow> latitude v = la)"
    using la columns(6) character_varying_255_short[OF columns(6)] by auto
  have lon: "\<exists>lo. toString nts (loc_longitude ?l) = Inr lo
                \<and> character_varying_255 lo = Inr (longitude v)
                \<and> (length lo \<le> 255 \<longrightarrow> longitude v = lo)"
    using lo columns(7) character_varying_255_short[OF columns(7)] by auto
  show ?thesis
    apply (rule exI[of _ v])
    apply (rule exI[of _ "client_ip req"])
    apply (rule exI[of _ "or_string (hdr_user_agent req) ''Unknown''"])
    apply (rule exI[of _ ?l])
    apply (intro conjI t client_info_res columns(1) ip_short agent columns(3) columns(4)
        columns(5) city_short region_short country_short lat lon)
    done
qed

theorem stored_row_agrees_with_response_witness:
  "table (client_info (\<lambda>x. ''2.35'')
        (\<lambda>u. Inr (JObj [(''city'', JStr ''Paris''), (''latitude'', JNum 48.85),
                         (''longitude'', JNum 2.35)]))
        None 0 [] remote_request) \<noteq> []
   \<and> (\<exists>v a u l. table (client_info (\<lambda>x. ''2.35'')
        (\<lambda>u. Inr (JObj [(''city'', JStr ''Paris''), (''latitude'', JNum 48.85),
                         (''longitude'', JNum 2.35)]))
        None 0 [] remote_request) = [v]
      \<and> res (client_info (\<lambda>x. ''2.35'')
        (\<lambda>u. Inr (JObj [(''city'', JStr ''Paris''), (''latitude'', JNum 48.85),
                         (''longitude'', JNum 2.35)]))
        None 0 [] remote_request) = \<lparr>status = 200, body = ClientInfoBody a u l\<rparr>
      \<and> user_agent v = u \<and> city v = Some ''Paris'' \<and> longitude v = ''2.35'')"
proof -
  let ?R = "client_info (\<lambda>x. ''2.35'')
        (\<lambda>u. Inr (JObj [(''city'', JStr ''Paris''), (''latitude'', JNum 48.85),
                         (''longitude'', JNum 2.35)]))
        None 0 [] remote_request"
  have t: "table ?R =
        [\<lparr>ip = ''203.0.113.7'', user_agent = ''curl/8.0'', city = Some ''Paris'',
          region = Some ''N/A'', country = Some ''N/A'', latitude = ''2.35'',
          longitude = ''2.35'', visited_at = 0\<rparr>]"
    by (simp add: client_info_table remote_request_eval geolocation_client_def geolocate_def
        js_or_def store_visit_def Visit_create_def string_violations_def insert_row_def
        character_varying_255_def text_column_def nullable_def)
  then have changed: "table ?R \<noteq> []"
    by simp
  from stored_row_agrees_with_response[OF changed] obtain v a u l where
    "table ?R = [] @ [v]"
    "res ?R = \<lparr>status = 200, body = ClientInfoBody a u l\<rparr>"
    "user_agent v = u"
    by blast
  with t changed show ?thesis
    by auto
qed

text \<open>
  C10 as the specification states it fails at a city that is no string: the provider
  answers the city 75, the response carries the number 75, and the column, a
  \<^verbatim>\<open>character varying(255)\<close>, keeps the text \<^verbatim>\<open>75\<close>. The claim grants the conversion to
  latitude and longitude only.
\<close>

theorem stored_row_counterexample:
  "table (client_info (\<lambda>x. if x = 75 then ''75'' else ''48.85'')
        (\<lambda>u. Inr (JObj [(''city'', JNum 75), (''latitude'', JNum 48.85),
                         (''longitude'', JNum 48.85)]))
        None 0 [] remote_request)
     = [\<lparr>ip = ''203.0.113.7'', user_agent = ''curl/8.0'', city = Some ''75'',
         region = Some ''N/A'', country = Some ''N/A'', latitude = ''48.85'',
         longitude = ''48.85'', visited_at = 0\<rparr>]
   \<and> res (client_info (\<lambda>x. if x = 75 then ''75'' else ''48.85'')
        (\<lambda>u. Inr (JObj [(''city'', JNum 75), (''latitude'', JNum 48.85),
                         (''longitude'', JNum 48.85)]))
        None 0 [] remote_request)
     = \<lparr>status = 200,
        body = ClientInfoBody ''203.0.113.7'' ''curl/8.0''
                 \<lparr>loc_city = JNum 75, loc_region = JStr ''N/A'', loc_country = JStr ''N/A'',
                  loc_latitude = JNum 48.85, loc_longitude = JNum 48.85\<rparr>\<rparr>
   \<and> JStr ''75'' \<noteq> JNum 75"
  by (simp add: client_info_table client_info_res remote_request_eval geolocation_client_def
      geolocate_def js_or_def store_visit_def Visit_create_def string_violations_def
      insert_row_def character_varying_255_def text_column_def nullable_def)

text \<open>A city that is an array is refused by the validation, with a store that answers.\<close>

lemma array_city_refused:
  "client_info nts (\<lambda>u. Inr (JObj [(''city'', JArr [JStr ''Paris''])])) None now rows
     remote_request
   = \<lparr>res = \<lparr>status = 200,
             body = ClientInfoBody ''203.0.113.7'' ''curl/8.0''
                      \<lparr>loc_city = JArr [JStr ''Paris''], loc_region = JStr ''N/A'',
                       loc_country = JStr ''N/A'', loc_latitude = JStr ''N/A'',
                       loc_longitude = JStr ''N/A''\<rparr>\<rparr>,
      console = [ConsoleError ''Database error:''
                   ''string violation: city cannot be an array or an object''],
      requests = [''https://ipapi.co/203.0.113.7/json/''], table = rows\<rparr>"
  by (simp add: client_info_def remote_request_eval geolocation_client_def geolocate_def
      js_or_def store_visit_def Visit_create_def string_violations_def geolocation_url_def
      Let_def)

section \<open>The two definitions of the Visit model\<close>

text \<open>
  What the capture endpoint stores for a latitude the provider gave as a number: the
  text \<^verbatim>\<open>Number.prototype.toString\<close> prints for it.
\<close>

lemma number_stored_as_text:
  assumes "client_ip req \<noteq> ''localhost''" and "client_ip req \<noteq> ''Unknown''"
    and "axios_get (geolocation_url (client_ip req)) = Inr (JObj kvs)"
    and "map_of kvs ''latitude'' = Some (JNum x)" and "x \<noteq> 0"
    and "length (nts x) \<le> 255"
    and "table (client_info nts axios_get fault now rows req) \<noteq> rows"
  shows "latitude (last (table (client_info nts axios_get fault now rows req))) = nts x"
proof -
  note loc = geolocation_client_object[of "client_ip req" axios_get kvs, OF assms(1-3)]
  from assms(4,5) have lat: "loc_latitude (fst (geolocation_client axios_get (client_ip req))) = JNum x"
    by (simp add: loc js_or_def)
  from stored_row[OF assms(7)] obtain la lo v where
    la: "toString nts (loc_latitude (fst (geolocation_client axios_get (client_ip req)))) = Inr la"
    and v: "insert_row now (client_ip req) (or_string (hdr_user_agent req) ''Unknown'')
             (bind_text nts (loc_city (fst (geolocation_client axios_get (client_ip req)))))
             (bind_text nts (loc_region (fst (geolocation_client axios_get (client_ip req)))))
             (bind_text nts (loc_country (fst (geolocation_client axios_get (client_ip req)))))
             la lo = Inr v"
    and t: "table (client_info nts axios_get fault now rows req) = rows @ [v]"
    by blast
  from la lat have "la = nts x"
    by simp
  with character_varying_255_short[OF insert_row_columns(6)[OF v]] assms(6)
  have "latitude v = nts x"
    by simp
  then show ?thesis
    by (simp add: t)
qed

text \<open>
  C8 at the attributes \<^verbatim>\<open>latitude\<close> and \<^verbatim>\<open>longitude\<close>: \<^verbatim>\<open>app.js\<close> declares them
  \<^verbatim>\<open>DataTypes.STRING\<close>, \<^verbatim>\<open>models/visit.js\<close> declares them \<^verbatim>\<open>DataTypes.FLOAT\<close>. The two
  definitions of the model agree on every other attribute and differ on these two.
\<close>

theorem Visit_models_diverge:
  "map_of app_Visit ''latitude'' = Some STRING
   \<and> map_of app_Visit ''longitude'' = Some STRING
   \<and> map_of models_Visit ''latitude'' = Some FLOAT
   \<and> map_of models_Visit ''longitude'' = Some FLOAT
   \<and> filter (\<lambda>a. fst a \<noteq> ''latitude'' \<and> fst a \<noteq> ''longitude'') app_Visit
       = filter (\<lambda>a. fst a \<noteq> ''latitude'' \<and> fst a \<noteq> ''longitude'') models_Visit
   \<and> app_Visit \<noteq> models_Visit"
  by (simp add: app_Visit_def models_Visit_def)

section \<open>Dates\<close>

lemma digit_cases:
  assumes "d < (10::nat)"
  shows "d = 0 \<or> d = 1 \<or> d = 2 \<or> d = 3 \<or> d = 4 \<or> d = 5 \<or> d = 6 \<or> d = 7 \<or> d = 8 \<or> d = 9"
  using assms by arith

lemma digit_of_digit_char:
  assumes "d < 10"
  shows "digit_of (digit_char d) = Some d"
  using digit_cases[OF assms]
  by (elim disjE) (simp_all add: digit_of_def digit_char_def)

lemma number_of_snoc:
  "number_of (cs @ [c]) =
     (case number_of cs of
        None \<Rightarrow> None
      | Some a \<Rightarrow> (case digit_of c of None \<Rightarrow> None | Some d \<Rightarrow> Some (a * 10 + d)))"
  by (induction cs) (auto split: option.splits simp: algebra_simps)


lemma decimal_small: "n < 10 \<Longrightarrow> decimal n = [digit_char n]"
  by (subst decimal.simps) simp

lemma decimal_large: "\<not> n < 10 \<Longrightarrow> decimal n = decimal (n div 10) @ [digit_char (n mod 10)]"
  by (subst decimal.simps) simp

lemma number_of_decimal: "number_of (decimal n) = Some n"
proof (induction n rule: decimal.induct)
  case (1 n)
  show ?case
  proof (cases "n < 10")
    case True
    then show ?thesis
      by (simp add: decimal_small digit_of_digit_char)
  next
    case False
    with 1 have "number_of (decimal (n div 10)) = Some (n div 10)"
      by simp
    with False show ?thesis
      by (simp add: decimal_large number_of_snoc digit_of_digit_char)
  qed
qed


lemma length_decimal:
  assumes "n < 10 ^ w" and "0 < w"
  shows "length (decimal n) \<le> w"
  using assms
proof (induction n arbitrary: w rule: decimal.induct)
  case (1 n)
  show ?case
  proof (cases "n < 10")
    case True
    with 1(3) show ?thesis
      by (simp add: decimal_small)
  next
    case False
    have "w \<noteq> 1"
      using False 1(2) by auto
    with 1(3) obtain v where w: "w = Suc v" and v: "0 < v"
      by (cases w) auto
    from 1(2) w have "n div 10 < 10 ^ v"
      by (simp add: less_mult_imp_div_less mult.commute)
    from 1(1)[OF False this v] have "length (decimal (n div 10)) \<le> v" .
    with False w show ?thesis
      by (simp add: decimal_large)
  qed
qed

lemma number_of_zeros: "number_of (replicate k CHR ''0'' @ s) = number_of s"
  by (induction k) (auto simp: digit_of_def split: option.splits)

lemma padStart_decimal:
  assumes "n < 10 ^ w" and "0 < w"
  shows "length (padStart w (decimal n)) = w" and "number_of (padStart w (decimal n)) = Some n"
  using length_decimal[OF assms]
  by (simp_all add: padStart_def number_of_zeros number_of_decimal)

lemma div_mod_pos:
  fixes a b :: int
  assumes "0 < b"
  shows "a = b * (a div b) + a mod b \<and> 0 \<le> a mod b \<and> a mod b < b"
  using assms by simp

lemma century_rest:
  fixes doe :: int
  assumes "0 \<le> doe" and "doe \<le> 146096"
  shows "0 \<le> doe - min 3 (doe div 36524) * 36524 \<and> doe - min 3 (doe div 36524) * 36524 \<le> 36524"
  using assms div_mod_pos[of 36524 doe] unfolding min_def
  by (cases "3 \<le> doe div 36524") auto

lemma cycle_count:
  fixes r1 :: int
  assumes "0 \<le> r1" and "r1 \<le> 36524"
  shows "0 \<le> r1 div 1461 \<and> r1 div 1461 \<le> 24"
  using assms div_mod_pos[of 1461 r1] by linarith

lemma day_of_year:
  fixes r2 :: int
  assumes "0 \<le> r2" and "r2 \<le> 1460"
  shows "0 \<le> r2 - min 3 (r2 div 365) * 365 \<and> r2 - min 3 (r2 div 365) * 365 \<le> 365"
  using assms div_mod_pos[of 365 r2] unfolding min_def
  by (cases "3 \<le> r2 div 365") auto

lemma month_index:
  fixes doy :: int
  assumes "0 \<le> doy" and "doy \<le> 365"
  shows "0 \<le> (5 * doy + 2) div 153 \<and> (5 * doy + 2) div 153 \<le> 11"
  using assms div_mod_pos[of 153 "5 * doy + 2"] by linarith

lemma day_of_month:
  fixes doy :: int
  assumes "0 \<le> doy" and "doy \<le> 365"
  shows "1 \<le> doy - (153 * ((5 * doy + 2) div 153) + 2) div 5 + 1
       \<and> doy - (153 * ((5 * doy + 2) div 153) + 2) div 5 + 1 \<le> 31"
  using assms div_mod_pos[of 153 "5 * doy + 2"]
    div_mod_pos[of 5 "153 * ((5 * doy + 2) div 153) + 2"] by linarith

lemma era_range:
  fixes day :: int
  assumes "\<bar>day\<bar> \<le> 100000000"
  shows "- 681 \<le> (day + 719468) div 146097 \<and> (day + 719468) div 146097 \<le> 690"
  using assms div_mod_pos[of 146097 "day + 719468"] by linarith

lemma civil_from_days_bounds:
  assumes "civil_from_days day = (y, m, d)"
  shows "1 \<le> m \<and> m \<le> 12 \<and> 1 \<le> d \<and> d \<le> 31" and "\<bar>day\<bar> \<le> 100000000 \<Longrightarrow> \<bar>y\<bar> \<le> 999999"
proof -
  define era where "era = (day + 719468) div 146097"
  define doe where "doe = (day + 719468) mod 146097"
  define c where "c = min 3 (doe div 36524)"
  define r1 where "r1 = doe - c * 36524"
  define q where "q = r1 div 1461"
  define r2 where "r2 = r1 mod 1461"
  define yy where "yy = min 3 (r2 div 365)"
  define doy where "doy = r2 - yy * 365"
  define mp where "mp = (5 * doy + 2) div 153"
  have doe: "0 \<le> doe" "doe \<le> 146096"
    by (simp_all add: doe_def)
  have c: "0 \<le> c" "c \<le> 3"
    using doe by (simp_all add: c_def)
  have r1: "0 \<le> r1" "r1 \<le> 36524"
    using century_rest[OF doe] by (simp_all add: r1_def c_def)
  have q: "0 \<le> q" "q \<le> 24"
    using cycle_count[OF r1] by (simp_all add: q_def)
  have r2: "0 \<le> r2" "r2 \<le> 1460"
    by (simp_all add: r2_def)
  have yy: "0 \<le> yy" "yy \<le> 3"
    using r2 by (simp_all add: yy_def)
  have doy: "0 \<le> doy" "doy \<le> 365"
    using day_of_year[OF r2] by (simp_all add: doy_def yy_def)
  have mp: "0 \<le> mp" "mp \<le> 11"
    using month_index[OF doy] by (simp_all add: mp_def)
  have dd: "1 \<le> doy - (153 * mp + 2) div 5 + 1" "doy - (153 * mp + 2) div 5 + 1 \<le> 31"
    using day_of_month[OF doy] by (simp_all add: mp_def)
  have "civil_from_days day =
      (400 * era + 100 * c + 4 * q + yy
         + (if (if mp < 10 then mp + 3 else mp - 9) \<le> 2 then 1 else 0),
       if mp < 10 then mp + 3 else mp - 9,
       doy - (153 * mp + 2) div 5 + 1)"
    unfolding civil_from_days_def Let_def mp_def doy_def yy_def r2_def q_def r1_def c_def
      doe_def era_def by (rule refl)
  with assms have m: "m = (if mp < 10 then mp + 3 else mp - 9)"
    and d: "d = doy - (153 * mp + 2) div 5 + 1"
    and y: "y = 400 * era + 100 * c + 4 * q + yy + (if m \<le> 2 then 1 else 0)"
    by auto
  from m mp d dd show "1 \<le> m \<and> m \<le> 12 \<and> 1 \<le> d \<and> d \<le> 31"
    by auto
  show "\<bar>y\<bar> \<le> 999999" if "\<bar>day\<bar> \<le> 100000000"
  proof -
    from era_range[OF that] have "- 681 \<le> era" "era \<le> 690"
      by (simp_all add: era_def)
    with y c q yy show ?thesis
      by (auto split: if_splits)
  qed
qed


lemma length_2: "length s = 2 \<Longrightarrow> \<exists>a b. s = [a, b]"
  by (auto simp: length_Suc_conv numeral_2_eq_2)

lemma length_3: "length s = 3 \<Longrightarrow> \<exists>a b c. s = [a, b, c]"
  by (auto simp: length_Suc_conv numeral_3_eq_3)

lemma iso_date_time_intro:
  assumes "length M = 2" and "in_range M 1 12"
    and "length D = 2" and "in_range D 1 31"
    and "length H = 2" and "in_range H 0 23"
    and "length Mi = 2" and "in_range Mi 0 59"
    and "length S = 2" and "in_range S 0 59"
    and "length Ms = 3" and "in_range Ms 0 999"
  shows "iso_date_time (''-'' @ M @ ''-'' @ D @ ''T'' @ H @ '':'' @ Mi @ '':'' @ S @ ''.'' @ Ms @ ''Z'')"
proof -
  from assms(1) obtain m1 m2 where M: "M = [m1, m2]" using length_2 by blast
  from assms(3) obtain d1 d2 where D: "D = [d1, d2]" using length_2 by blast
  from assms(5) obtain h1 h2 where H: "H = [h1, h2]" using length_2 by blast
  from assms(7) obtain i1 i2 where Mi: "Mi = [i1, i2]" using length_2 by blast
  from assms(9) obtain s1 s2 where S: "S = [s1, s2]" using length_2 by blast
  from assms(11) obtain l1 l2 l3 where Ms: "Ms = [l1, l2, l3]" using length_3 by blast
  from assms(2,4,6,8,10,12) show ?thesis
    unfolding M D H Mi S Ms iso_date_time_def by simp
qed

lemma in_range_padStart:
  assumes "lo \<le> n" and "n \<le> hi" and "n < 10 ^ w" and "0 < w"
  shows "length (padStart w (decimal n)) = w \<and> in_range (padStart w (decimal n)) lo hi"
  using assms padStart_decimal[OF assms(3,4)] by (simp add: in_range_def)

lemma toISOString_iso:
  assumes "\<bar>t\<bar> \<le> 8640000000000000"
  shows "iso_datetime (toISOString t)"
proof -
  obtain y m d where civ: "civil_from_days (t div 86400000) = (y, m, d)"
    by (metis prod_cases3)
  from assms have "\<bar>t div 86400000\<bar> \<le> 100000000"
    using div_mod_pos[of 86400000 t] by linarith
  with civil_from_days_bounds[OF civ]
  have m: "1 \<le> m" "m \<le> 12" and d: "1 \<le> d" "d \<le> 31" and y: "\<bar>y\<bar> \<le> 999999"
    by simp_all
  define ms where "ms = t mod 86400000"
  have ms: "0 \<le> ms" "ms < 86400000"
    by (simp_all add: ms_def)
  have h: "0 \<le> ms div 3600000" "ms div 3600000 \<le> 23"
    using ms div_mod_pos[of 3600000 ms] by linarith+
  have mi: "0 \<le> ms div 60000 mod 60" "ms div 60000 mod 60 \<le> 59"
    by simp_all
  have s: "0 \<le> ms div 1000 mod 60" "ms div 1000 mod 60 \<le> 59"
    by simp_all
  have l: "0 \<le> ms mod 1000" "ms mod 1000 \<le> 999"
    by simp_all
  define tail where "tail =
      ''-'' @ padStart 2 (decimal (nat m)) @ ''-'' @ padStart 2 (decimal (nat d))
         @ ''T'' @ padStart 2 (decimal (nat (ms div 3600000)))
         @ '':'' @ padStart 2 (decimal (nat (ms div 60000 mod 60)))
         @ '':'' @ padStart 2 (decimal (nat (ms div 1000 mod 60)))
         @ ''.'' @ padStart 3 (decimal (nat (ms mod 1000))) @ ''Z''"
  have eq: "toISOString t = year_string y @ tail"
    unfolding toISOString_def Let_def civ prod.case tail_def ms_def by (rule refl)
  have M: "length (padStart 2 (decimal (nat m))) = 2 \<and> in_range (padStart 2 (decimal (nat m))) 1 12"
    using m by (intro in_range_padStart) simp_all
  have D: "length (padStart 2 (decimal (nat d))) = 2 \<and> in_range (padStart 2 (decimal (nat d))) 1 31"
    using d by (intro in_range_padStart) simp_all
  have H: "length (padStart 2 (decimal (nat (ms div 3600000)))) = 2
           \<and> in_range (padStart 2 (decimal (nat (ms div 3600000)))) 0 23"
    using h by (intro in_range_padStart) simp_all
  have Mi: "length (padStart 2 (decimal (nat (ms div 60000 mod 60)))) = 2
           \<and> in_range (padStart 2 (decimal (nat (ms div 60000 mod 60)))) 0 59"
    using mi by (intro in_range_padStart) simp_all
  have S: "length (padStart 2 (decimal (nat (ms div 1000 mod 60)))) = 2
           \<and> in_range (padStart 2 (decimal (nat (ms div 1000 mod 60)))) 0 59"
    using s by (intro in_range_padStart) simp_all
  have L: "length (padStart 3 (decimal (nat (ms mod 1000)))) = 3
           \<and> in_range (padStart 3 (decimal (nat (ms mod 1000)))) 0 999"
    using l by (intro in_range_padStart) simp_all
  have tail: "iso_date_time tail"
    unfolding tail_def
    by (intro iso_date_time_intro M[THEN conjunct1] M[THEN conjunct2] D[THEN conjunct1]
        D[THEN conjunct2] H[THEN conjunct1] H[THEN conjunct2] Mi[THEN conjunct1]
        Mi[THEN conjunct2] S[THEN conjunct1] S[THEN conjunct2] L[THEN conjunct1]
        L[THEN conjunct2])
  show ?thesis
  proof (cases "0 \<le> y \<and> y \<le> 9999")
    case True
    then have Y: "length (padStart 4 (decimal (nat y))) = 4
           \<and> in_range (padStart 4 (decimal (nat y))) 0 9999"
      by (intro in_range_padStart) auto
    from True have "year_string y = padStart 4 (decimal (nat y))"
      by (simp add: year_string_def)
    with Y tail show ?thesis
      unfolding eq iso_datetime_def by simp
  next
    case False
    from y have P: "length (padStart 6 (decimal (nat \<bar>y\<bar>))) = 6
           \<and> in_range (padStart 6 (decimal (nat \<bar>y\<bar>))) 0 999999"
      by (intro in_range_padStart) auto
    from False have "year_string y = (if y < 0 then ''-'' else ''+'') @ padStart 6 (decimal (nat \<bar>y\<bar>))"
      by (auto simp add: year_string_def)
    with P tail show ?thesis
      unfolding eq iso_datetime_def by (simp add: nth_append)
  qed
qed

section \<open>GET /_health\<close>

text \<open>The model of \<^verbatim>\<open>toISOString\<close> on known dates: the epoch, a leap day and the last
  millisecond before the epoch.\<close>

lemma toISOString_eval: "toISOString 1700000000000 = ''2023-11-14T22:13:20.000Z''"
  by code_simp

lemma toISOString_known:
  "toISOString 0 = ''1970-01-01T00:00:00.000Z''"
  "toISOString 951782400000 = ''2000-02-29T00:00:00.000Z''"
  "toISOString (- 1) = ''1969-12-31T23:59:59.999Z''"
  by code_simp+

text \<open>
  C7. When \<^verbatim>\<open>sequelize.authenticate()\<close> resolves the answer is 200 with
  \<^verbatim>\<open>{status: "ok", database: "connected", timestamp}\<close>, when it rejects 503 with
  \<^verbatim>\<open>{status: "error", database: "disconnected", timestamp}\<close>; the timestamp is
  \<^verbatim>\<open>toISOString\<close> of the clock, an ISO datetime for every time value a Date holds.
\<close>

theorem health_reports_store:
  assumes "\<bar>now\<bar> \<le> 8640000000000000"
  shows "health_handler None now
           = \<lparr>status = 200, body = HealthBody ''ok'' ''connected'' (toISOString now)\<rparr>
       \<and> health_handler (Some e) now
           = \<lparr>status = 503, body = HealthBody ''error'' ''disconnected'' (toISOString now)\<rparr>
       \<and> iso_datetime (toISOString now)"
  using toISOString_iso[OF assms]
  by (simp add: health_handler_def sequelize_authenticate_def)

theorem health_reports_store_witness:
  "\<bar>1700000000000 :: int\<bar> \<le> 8640000000000000
   \<and> health_handler None 1700000000000
       = \<lparr>status = 200, body = HealthBody ''ok'' ''connected'' ''2023-11-14T22:13:20.000Z''\<rparr>
   \<and> health_handler (Some (Error ''connect ECONNREFUSED'')) 1700000000000
       = \<lparr>status = 503,
          body = HealthBody ''error'' ''disconnected'' ''2023-11-14T22:13:20.000Z''\<rparr>
   \<and> iso_datetime ''2023-11-14T22:13:20.000Z''"
proof -
  have range: "\<bar>1700000000000 :: int\<bar> \<le> 8640000000000000"
    by simp
  from health_reports_store[OF range, of "Error ''connect ECONNREFUSED''"] range
  show ?thesis
    unfolding toISOString_eval by simp
qed

section \<open>Startup\<close>

lemma startup_secret_rejected:
  "startup (Some ''production'') url port (Inl e) new_fault authenticate_fault sync_fault =
     \<lparr>DATABASE_URL = url,
      stdio = [ConsoleLog ''Fetching secrets for production...'',
               ConsoleErrorObj ''Failed to initialize application:'' e],
      routes = [], listening = False\<rparr>"
  by (simp add: startup_def fetch_secrets_def Let_def)

lemma startup_secret_empty:
  "startup (Some ''production'') url port (Inr []) new_fault authenticate_fault sync_fault =
     \<lparr>DATABASE_URL = Some [],
      stdio = [ConsoleLog ''Fetching secrets for production...'',
               ConsoleErrorObj ''Failed to initialize application:''
                 (Error ''DATABASE_URL is not set.'')],
      routes = [], listening = False\<rparr>"
  by (simp add: startup_def fetch_secrets_def Let_def)

lemma startup_authenticate_rejected:
  "\<not> listening (startup NODE_ENV url port getSecret new_fault (Some e) sync_fault)
   \<and> routes (startup NODE_ENV url port getSecret new_fault (Some e) sync_fault) = []
   \<and> (\<exists>error. last (stdio (startup NODE_ENV url port getSecret new_fault (Some e) sync_fault))
         = ConsoleErrorObj ''Failed to initialize application:'' error)"
  by (auto simp: startup_def fetch_secrets_def connect_store_def sequelize_authenticate_def
      Let_def split: sum.splits option.splits)

lemma startup_authenticate_logged:
  assumes "getSecret = Inr secret" and "secret \<noteq> []"
  shows "last (stdio (startup (Some ''production'') url port getSecret None (Some e) sync_fault))
           = ConsoleErrorObj ''Failed to initialize application:'' e"
  using assms
  by (simp add: startup_def fetch_secrets_def connect_store_def sequelize_authenticate_def
      Let_def)

text \<open>With a secret, a store that answers and a table that syncs, the listener is bound.\<close>

lemma startup_listens:
  assumes "secret \<noteq> []"
  shows "listening (startup (Some ''production'') url port (Inr secret) None None None)
         \<and> served (startup (Some ''production'') url port (Inr secret) None None None)
             ''/api/logs''"
  using assms
  by (simp add: startup_def fetch_secrets_def connect_store_def sequelize_authenticate_def
      serve_def served_def Let_def)

text \<open>
  C6. In production mode, when \<^verbatim>\<open>getSecret\<close> rejects or resolves to the empty string, or
  when \<^verbatim>\<open>sequelize.authenticate()\<close> rejects, the start ends in the \<^verbatim>\<open>catch\<close>: the last
  line of the console is \<^verbatim>\<open>Failed to initialize application:\<close> with the error object,
  \<^verbatim>\<open>app.listen\<close> is never reached and no path is served.
\<close>

theorem startup_failure_never_serves:
  "(getSecret = Inl e \<or> getSecret = Inr [] \<or> authenticate_fault = Some e' \<longrightarrow>
      \<not> listening (startup (Some ''production'') url port getSecret new_fault
                     authenticate_fault sync_fault)
    \<and> (\<forall>path. \<not> served (startup (Some ''production'') url port getSecret new_fault
                           authenticate_fault sync_fault) path)
    \<and> (\<exists>error. last (stdio (startup (Some ''production'') url port getSecret new_fault
                                authenticate_fault sync_fault))
          = ConsoleErrorObj ''Failed to initialize application:'' error))
   \<and> (getSecret = Inl e \<longrightarrow>
        last (stdio (startup (Some ''production'') url port getSecret new_fault
                       authenticate_fault sync_fault))
          = ConsoleErrorObj ''Failed to initialize application:'' e)
   \<and> (getSecret = Inr [] \<longrightarrow>
        last (stdio (startup (Some ''production'') url port getSecret new_fault
                       authenticate_fault sync_fault))
          = ConsoleErrorObj ''Failed to initialize application:''
              (Error ''DATABASE_URL is not set.''))
   \<and> ((\<exists>secret. getSecret = Inr secret \<and> secret \<noteq> []) \<and> new_fault = None
        \<and> authenticate_fault = Some e' \<longrightarrow>
        last (stdio (startup (Some ''production'') url port getSecret new_fault
                       authenticate_fault sync_fault))
          = ConsoleErrorObj ''Failed to initialize application:'' e')"
proof (intro conjI impI)
  assume "getSecret = Inl e \<or> getSecret = Inr [] \<or> authenticate_fault = Some e'"
  then consider (rejected) "getSecret = Inl e" | (empty) "getSecret = Inr []"
    | (dead) "authenticate_fault = Some e'"
    by blast
  then have "\<not> listening (startup (Some ''production'') url port getSecret new_fault
                     authenticate_fault sync_fault)
    \<and> routes (startup (Some ''production'') url port getSecret new_fault
                     authenticate_fault sync_fault) = []
    \<and> (\<exists>error. last (stdio (startup (Some ''production'') url port getSecret new_fault
                                authenticate_fault sync_fault))
          = ConsoleErrorObj ''Failed to initialize application:'' error)"
  proof cases
    case rejected
    then show ?thesis by (simp add: startup_secret_rejected)
  next
    case empty
    then show ?thesis by (simp add: startup_secret_empty)
  next
    case dead
    then show ?thesis by (simp add: startup_authenticate_rejected)
  qed
  then show "\<not> listening (startup (Some ''production'') url port getSecret new_fault
                     authenticate_fault sync_fault)"
    and "\<forall>path. \<not> served (startup (Some ''production'') url port getSecret new_fault
                           authenticate_fault sync_fault) path"
    and "\<exists>error. last (stdio (startup (Some ''production'') url port getSecret new_fault
                                authenticate_fault sync_fault))
          = ConsoleErrorObj ''Failed to initialize application:'' error"
    by (simp_all add: served_def)
next
  assume "getSecret = Inl e"
  then show "last (stdio (startup (Some ''production'') url port getSecret new_fault
                       authenticate_fault sync_fault))
          = ConsoleErrorObj ''Failed to initialize application:'' e"
    by (simp add: startup_secret_rejected)
next
  assume "getSecret = Inr []"
  then show "last (stdio (startup (Some ''production'') url port getSecret new_fault
                       authenticate_fault sync_fault))
          = ConsoleErrorObj ''Failed to initialize application:''
              (Error ''DATABASE_URL is not set.'')"
    by (simp add: startup_secret_empty)
next
  assume "(\<exists>secret. getSecret = Inr secret \<and> secret \<noteq> []) \<and> new_fault = None
        \<and> authenticate_fault = Some e'"
  then show "last (stdio (startup (Some ''production'') url port getSecret new_fault
                       authenticate_fault sync_fault))
          = ConsoleErrorObj ''Failed to initialize application:'' e'"
    using startup_authenticate_logged by auto
qed

theorem startup_failure_never_serves_witness:
  "\<not> listening (startup (Some ''production'') None 8080 (Inr []) None None None)
   \<and> \<not> served (startup (Some ''production'') None 8080 (Inr []) None None None) ''/api/logs''
   \<and> last (stdio (startup (Some ''production'') None 8080 (Inr []) None None None))
       = ConsoleErrorObj ''Failed to initialize application:'' (Error ''DATABASE_URL is not set.'')
   \<and> \<not> listening (startup (Some ''production'') None 8080 (Inr ''postgresql://db'') None
         (Some (Error ''connect ECONNREFUSED'')) None)
   \<and> last (stdio (startup (Some ''production'') None 8080 (Inr ''postgresql://db'') None
         (Some (Error ''connect ECONNREFUSED'')) None))
       = ConsoleErrorObj ''Failed to initialize application:'' (Error ''connect ECONNREFUSED'')"
proof -
  note empty = startup_failure_never_serves[of "Inr []" "Error []" None "Error []" None 8080 None
      None]
  note dead = startup_failure_never_serves[of "Inr ''postgresql://db''" "Error []"
      "Some (Error ''connect ECONNREFUSED'')" "Error ''connect ECONNREFUSED''" None 8080 None
      None]
  from empty[THEN conjunct1] empty[THEN conjunct2, THEN conjunct2, THEN conjunct1]
    dead[THEN conjunct1] dead[THEN conjunct2, THEN conjunct2, THEN conjunct2]
  show ?thesis
    by simp
qed


end
